theory Spec2Isabelle
  imports Main
begin

section \<open>JavaScript strings and containers\<close>

text \<open>
  A JavaScript string is modelled as \<^typ>\<open>string\<close> (a list of characters). The string
  methods the sources call are written out below with the semantics of the language
  standard. The case mappings \<open>toLowerCase\<close> and \<open>toUpperCase\<close>, which depend on the
  character set, are parameters of the model (fields of \<open>platform\<close> below).
\<close>

definition startsWith :: "string \<Rightarrow> string \<Rightarrow> bool" where
  "startsWith s p = (take (length p) s = p)"

definition endsWith :: "string \<Rightarrow> string \<Rightarrow> bool" where
  "endsWith s p = (length p \<le> length s \<and> drop (length s - length p) s = p)"

text \<open>\<open>s.includes(sub)\<close>: \<open>sub\<close> occurs in \<open>s\<close> at some position.\<close>

fun str_includes :: "string \<Rightarrow> string \<Rightarrow> bool" where
  "str_includes [] sub = (sub = [])"
| "str_includes (c # cs) sub = (startsWith (c # cs) sub \<or> str_includes cs sub)"

text \<open>
  \<open>s.split(sep)\<close> for a non-empty separator: the pieces between the non-overlapping
  occurrences of \<open>sep\<close>, found from left to right. The result is never empty:
  \<open>"".split("/")\<close> is \<open>[""]\<close>.
\<close>

function split :: "string \<Rightarrow> string \<Rightarrow> string list" where
  "split sep [] = [[]]"
| "split sep (c # cs) =
     (if sep \<noteq> [] \<and> startsWith (c # cs) sep
      then [] # split sep (drop (length sep) (c # cs))
      else (case split sep cs of
              [] \<Rightarrow> [[c]]
            | p # ps \<Rightarrow> (c # p) # ps))"
  by pat_completeness auto
termination
  by (relation "measure (\<lambda>(sep, s). length s)") (auto simp: neq_Nil_conv)

text \<open>\<open>parts.join(sep)\<close>.\<close>

fun join :: "string \<Rightarrow> string list \<Rightarrow> string" where
  "join sep [] = []"
| "join sep [p] = p"
| "join sep (p # q # ps) = p @ sep @ join sep (q # ps)"

text \<open>
  Reading an array element inside a template literal: an index past the end reads
  \<open>undefined\<close>, which a template prints as the text \<open>undefined\<close>.
\<close>

definition template_nth :: "string list \<Rightarrow> nat \<Rightarrow> string" where
  "template_nth parts i = (if i < length parts then parts ! i else ''undefined'')"

text \<open>\<open>s.replace(pat, rep)\<close> with a string pattern: only the first occurrence is replaced.\<close>

fun replace_first :: "string \<Rightarrow> string \<Rightarrow> string \<Rightarrow> string" where
  "replace_first pat rep [] = (if pat = [] then rep else [])"
| "replace_first pat rep (c # cs) =
     (if startsWith (c # cs) pat then rep @ drop (length pat) (c # cs)
      else c # replace_first pat rep cs)"

text \<open>
  The character classes of the regular expressions in \<open>toTitleCase\<close>: \<open>\w\<close> is
  \<open>[A-Za-z0-9_]\<close>, \<open>\s\<close> is the white space of the language (within one byte: tab,
  line feed, vertical tab, form feed, carriage return, space, no-break space).
\<close>

definition is_word_char :: "char \<Rightarrow> bool" where
  "is_word_char c =
     (let n = of_char c :: nat in
      (48 \<le> n \<and> n \<le> 57) \<or> (65 \<le> n \<and> n \<le> 90) \<or> (97 \<le> n \<and> n \<le> 122) \<or> n = 95)"

definition is_space_char :: "char \<Rightarrow> bool" where
  "is_space_char c = (let n = of_char c :: nat in (9 \<le> n \<and> n \<le> 13) \<or> n = 32 \<or> n = 160)"

text \<open>
  A JavaScript \<open>Map\<close> (and an object used as a dictionary with non-numeric keys) keeps
  its keys in insertion order: it is an association list with distinct keys. \<open>set\<close> on
  a key already present replaces the value in place; a new key goes to the end.
\<close>

type_synonym ('k, 'v) js_map = "('k \<times> 'v) list"

definition map_get :: "('k, 'v) js_map \<Rightarrow> 'k \<Rightarrow> 'v option" where
  "map_get m k = map_of m k"

definition map_has :: "('k, 'v) js_map \<Rightarrow> 'k \<Rightarrow> bool" where
  "map_has m k = (map_of m k \<noteq> None)"

fun map_set :: "('k, 'v) js_map \<Rightarrow> 'k \<Rightarrow> 'v \<Rightarrow> ('k, 'v) js_map" where
  "map_set [] k v = [(k, v)]"
| "map_set ((k', v') # m) k v =
     (if k' = k then (k, v) # m else (k', v') # map_set m k v)"

definition map_values :: "('k, 'v) js_map \<Rightarrow> 'v list" where
  "map_values m = map snd m"

section \<open>Repository manager (repoManager.ts)\<close>

record RepoConfig =
  rc_id :: string
  rc_path :: string
  displayName :: string

text \<open>
  The state of the \<open>RepoManager\<close> singleton: the repositories by id, and
  \<open>_defaultRepoId\<close>, which is \<open>null\<close> (\<open>None\<close>) until a default is set.
  \<open>_rootDir\<close> is the constant \<open>/\<close>.
\<close>

record RepoManager =
  repositories :: "(string, RepoConfig) js_map"
  default_id :: "string option"

definition rootDir :: string where
  "rootDir = ''/''"

definition empty_manager :: RepoManager where
  "empty_manager = \<lparr>repositories = [], default_id = None\<rparr>"

text \<open>
  JavaScript truthiness of a \<open>string | null\<close> or \<open>string | undefined\<close> value:
  \<open>null\<close>, \<open>undefined\<close> and the empty string are falsy.
\<close>

definition truthy :: "string option \<Rightarrow> bool" where
  "truthy v = (case v of None \<Rightarrow> False | Some s \<Rightarrow> s \<noteq> [])"

text \<open>The getter \<open>defaultRepoId\<close>: \<open>this._defaultRepoId || 'unknown'\<close>.\<close>

definition defaultRepoId :: "RepoManager \<Rightarrow> string" where
  "defaultRepoId rm = (if truthy (default_id rm) then the (default_id rm) else ''unknown'')"

text \<open>
  \<open>getRepository(repoId?)\<close>: a falsy id (omitted or empty) reads the default repository
  when a default is set; \<open>None\<close> is the result \<open>undefined\<close>.
\<close>

definition getRepository :: "RepoManager \<Rightarrow> string option \<Rightarrow> RepoConfig option" where
  "getRepository rm repoId =
     (if \<not> truthy repoId \<and> truthy (default_id rm)
      then map_get (repositories rm) (the (default_id rm))
      else if truthy repoId then map_get (repositories rm) (the repoId) else None)"

text \<open>
  The functions of the Node.js library and of the operating system that the sources call
  are parameters of the model. \<open>None\<close> stands for a call that throws (or a promise that
  rejects). The file system is taken as fixed during one operation.
  \<^item> \<open>path_resolve\<close>, \<open>path_join\<close>, \<open>path_extname\<close>: \<open>path.resolve\<close>, \<open>path.join\<close>,
    \<open>path.extname\<close>;
  \<^item> \<open>fs_existsSync\<close>: \<open>fs.existsSync\<close>; \<open>fs_readdir\<close>: \<open>fs.readdir\<close>;
    \<open>fs_isDirectory\<close>: \<open>fs.stat(p)\<close> followed by \<open>isDirectory()\<close>;
  \<^item> \<open>read_package_json\<close>: \<open>fs.readFile\<close> followed by \<open>JSON.parse\<close>, reduced to the
    properties the detector reads (see \<open>package_json\<close> below);
  \<^item> \<open>exec_find\<close>: the standard output of the \<open>find\<close> command run by \<open>detectLanguage\<close>
    on a directory;
  \<^item> \<open>chdir_ok\<close>: whether \<open>process.chdir\<close> to a path succeeds; \<open>cwd_ok\<close>: whether
    \<open>process.cwd()\<close> succeeds when the process is in the given directory;
  \<^item> \<open>toLowerCase\<close>, \<open>toUpperCase\<close>: \<open>String.prototype.toLowerCase\<close> and
    \<open>String.prototype.toUpperCase\<close>, on whole strings (the image of one character can be
    several characters).

  A \<open>package.json\<close> is \<open>None\<close> when it cannot be read or parsed, or when its value is
  \<open>null\<close> (reading a property of it throws). Its fields are the truthiness of
  \<open>dependencies?.react\<close>, \<open>express\<close>, \<open>fastify\<close> and \<open>koa\<close>, whether \<open>private\<close> is
  \<open>false\<close>, and the \<open>name\<close> when it is a non-empty string. The messages that the sources
  write to the standard error stream are not part of the model.
\<close>

record package_json =
  dep_react :: bool
  dep_express :: bool
  dep_fastify :: bool
  dep_koa :: bool
  private_is_false :: bool
  pkg_name :: "string option"

record platform =
  path_resolve :: "string \<Rightarrow> string \<Rightarrow> string"
  path_join :: "string \<Rightarrow> string \<Rightarrow> string"
  path_extname :: "string \<Rightarrow> string"
  fs_existsSync :: "string \<Rightarrow> bool"
  fs_readdir :: "string \<Rightarrow> string list option"
  fs_isDirectory :: "string \<Rightarrow> bool option"
  read_package_json :: "string \<Rightarrow> package_json option"
  exec_find :: "string \<Rightarrow> string option"
  chdir_ok :: "string \<Rightarrow> bool"
  cwd_ok :: "string \<Rightarrow> bool"
  toLowerCase :: "string \<Rightarrow> string"
  toUpperCase :: "string \<Rightarrow> string"

text \<open>\<open>path.isAbsolute\<close> on a POSIX system: the path begins with a slash.\<close>

definition isAbsolute :: "string \<Rightarrow> bool" where
  "isAbsolute p = startsWith p ''/''"

text \<open>
  \<open>addRepository\<close>: a relative path is resolved against the root directory, the
  configuration is stored under its id, and the id becomes the default when
  \<open>_defaultRepoId\<close> is falsy.
\<close>

definition addRepository :: "platform \<Rightarrow> RepoManager \<Rightarrow> RepoConfig \<Rightarrow> RepoManager" where
  "addRepository pf rm config =
     (let config' = (if \<not> isAbsolute (rc_path config)
                     then config\<lparr>rc_path := path_resolve pf rootDir (rc_path config)\<rparr>
                     else config);
          rm' = rm\<lparr>repositories := map_set (repositories rm) (rc_id config') config'\<rparr>
      in if \<not> truthy (default_id rm') then rm'\<lparr>default_id := Some (rc_id config')\<rparr> else rm')"

definition getAllRepositories :: "RepoManager \<Rightarrow> RepoConfig list" where
  "getAllRepositories rm = map_values (repositories rm)"

definition capitalizeRepoId :: "platform \<Rightarrow> string \<Rightarrow> string" where
  "capitalizeRepoId pf r = toUpperCase pf (take 1 r) @ drop 1 r"

text \<open>
  The environment \<open>process.env\<close> is an association list in the order of \<open>Object.keys\<close>;
  \<open>env_get\<close> reads a variable (\<open>None\<close> for \<open>undefined\<close>).
\<close>

type_synonym environment = "(string \<times> string) list"

definition env_get :: "environment \<Rightarrow> string \<Rightarrow> string option" where
  "env_get env key = map_of env key"

text \<open>
  One call of the \<open>forEach\<close> callback of \<open>loadFromEnvironment\<close>, for one key:
  \<open>scan_config\<close> is the configuration the callback builds for a \<open>REPO_PATH_\<close> variable
  whose path exists (\<open>None\<close> when it registers nothing), \<open>load_key\<close> registers it.
\<close>

definition scan_config :: "platform \<Rightarrow> environment \<Rightarrow> string \<Rightarrow> RepoConfig option" where
  "scan_config pf env key =
     (if startsWith key ''REPO_PATH_'' then
        (let repoId = toLowerCase pf (replace_first ''REPO_PATH_'' [] key);
             repoPath = env_get env key
         in if truthy repoPath \<and> fs_existsSync pf (the repoPath) then
              (let displayNameKey = ''REPO_NAME_'' @ toUpperCase pf repoId;
                   displayName = (if truthy (env_get env displayNameKey)
                                  then the (env_get env displayNameKey)
                                  else capitalizeRepoId pf repoId)
               in Some \<lparr>rc_id = repoId, rc_path = the repoPath, displayName = displayName\<rparr>)
            else None)
      else None)"

definition load_key :: "platform \<Rightarrow> environment \<Rightarrow> RepoManager \<Rightarrow> string \<Rightarrow> RepoManager" where
  "load_key pf env rm key =
     (case scan_config pf env key of
        None \<Rightarrow> rm
      | Some config \<Rightarrow>
          (let rm' = addRepository pf rm config
           in if \<not> truthy (default_id rm') then rm'\<lparr>default_id := Some (rc_id config)\<rparr>
              else rm'))"

text \<open>
  \<open>loadFromEnvironment\<close>: the scan of the \<open>REPO_PATH_\<close> variables, then the special case
  of \<open>SWIFT_CODER_REPO_PATH\<close>. The messages written to the standard error stream are not
  part of the model.
\<close>

definition swift_coder_override :: "platform \<Rightarrow> environment \<Rightarrow> bool" where
  "swift_coder_override pf env =
     (truthy (env_get env ''SWIFT_CODER_REPO_PATH'')
      \<and> fs_existsSync pf (the (env_get env ''SWIFT_CODER_REPO_PATH'')))"

definition loadFromEnvironment :: "platform \<Rightarrow> environment \<Rightarrow> RepoManager \<Rightarrow> RepoManager" where
  "loadFromEnvironment pf env rm =
     (let rm1 = foldl (load_key pf env) rm (map fst env) in
      if swift_coder_override pf env then
        (addRepository pf rm1
           \<lparr>rc_id = ''swift-coder'', rc_path = the (env_get env ''SWIFT_CODER_REPO_PATH''),
            displayName = ''Swift Coder''\<rparr>)\<lparr>default_id := Some ''swift-coder''\<rparr>
      else rm1)"

subsection \<open>The working directory of the process\<close>

text \<open>
  The process has one current directory. The state records it together with the
  history of what happened: each call of \<open>resetWorkingDirectory\<close> and each successful
  \<open>process.chdir\<close>.
\<close>

datatype event = Reset_called | Chdir string

record process =
  cwd :: string
  events :: "event list"

text \<open>
  \<open>resetWorkingDirectory\<close> returns \<open>false\<close> from its \<open>catch\<close> block when \<open>process.cwd()\<close>
  or \<open>process.chdir\<close> throws.
\<close>

definition resetWorkingDirectory :: "platform \<Rightarrow> process \<Rightarrow> bool \<times> process" where
  "resetWorkingDirectory pf p =
     (let p0 = p\<lparr>events := events p @ [Reset_called]\<rparr> in
      if \<not> cwd_ok pf (cwd p0) then (False, p0)
      else if cwd p0 \<noteq> rootDir then
        (if \<not> chdir_ok pf rootDir then (False, p0)
         else (let p1 = p0\<lparr>cwd := rootDir, events := events p0 @ [Chdir rootDir]\<rparr>
               in if \<not> cwd_ok pf (cwd p1) then (False, p1) else (True, p1)))
      else (True, p0))"

text \<open>
  \<open>setRepositoryAsWorkingDirectory\<close>: the result of the reset is not read; a repository
  that is not found, or a \<open>process.chdir\<close> or \<open>process.cwd()\<close> that throws, gives \<open>false\<close>.
\<close>

definition setRepositoryAsWorkingDirectory ::
  "platform \<Rightarrow> RepoManager \<Rightarrow> string option \<Rightarrow> process \<Rightarrow> bool \<times> process" where
  "setRepositoryAsWorkingDirectory pf rm repoId p =
     (let p1 = snd (resetWorkingDirectory pf p) in
      case getRepository rm repoId of
        None \<Rightarrow> (False, p1)
      | Some repo \<Rightarrow>
          if \<not> chdir_ok pf (rc_path repo) then (False, p1)
          else (let p2 = p1\<lparr>cwd := rc_path repo, events := events p1 @ [Chdir (rc_path repo)]\<rparr>
                in if \<not> cwd_ok pf (cwd p2) then (False, p2) else (True, p2)))"

text \<open>
  The discipline on a history, replayed from the directory \<open>c\<close>: every change of
  directory either goes to the root or starts from the root.
\<close>

fun through_root :: "string \<Rightarrow> event list \<Rightarrow> bool" where
  "through_root c [] = True"
| "through_root c (Reset_called # es) = through_root c es"
| "through_root c (Chdir d # es) = ((d = rootDir \<or> c = rootDir) \<and> through_root d es)"

section \<open>Path handler (path-handler.ts)\<close>

datatype PathFormatType = ABSOLUTE_PATH | REPOSITORY_PREFIXED | RELATIVE_PATH | UNKNOWN

text \<open>A thrown \<open>Error\<close> is a value carrying its message.\<close>

datatype error = Error string

definition getPathFormatType :: "string \<Rightarrow> PathFormatType" where
  "getPathFormatType path =
     (if path = [] then UNKNOWN
      else if startsWith path ''/'' then ABSOLUTE_PATH
      else if str_includes path ''://'' then REPOSITORY_PREFIXED
      else RELATIVE_PATH)"

record ParsedPath =
  repoId :: string
  relativePath :: string
  formatType :: PathFormatType

text \<open>
  \<open>parsePathFormat\<close>. In the prefixed case the source destructures
  \<open>const [prefix, rest] = path.split('://')\<close>: the first two pieces of the split, a
  missing piece being \<open>undefined\<close> (falsy, like the empty string).
\<close>

definition parsePathFormat :: "RepoManager \<Rightarrow> string \<Rightarrow> error + ParsedPath" where
  "parsePathFormat rm path =
     (case getPathFormatType path of
        ABSOLUTE_PATH \<Rightarrow>
          (let parts = split ''/'' (drop 1 path) in
           if length parts < 2 then Inl (Error (''Invalid absolute path format: '' @ path))
           else Inr \<lparr>repoId = hd parts, relativePath = join ''/'' (tl parts),
                     formatType = ABSOLUTE_PATH\<rparr>)
      | REPOSITORY_PREFIXED \<Rightarrow>
          (case split ''://'' path of
             prefix # rest # _ \<Rightarrow>
               if prefix = [] \<or> rest = []
               then Inl (Error (''Invalid repository prefixed path: '' @ path))
               else Inr \<lparr>repoId = prefix, relativePath = rest,
                         formatType = REPOSITORY_PREFIXED\<rparr>
           | _ \<Rightarrow> Inl (Error (''Invalid repository prefixed path: '' @ path)))
      | RELATIVE_PATH \<Rightarrow>
          Inr \<lparr>repoId = defaultRepoId rm, relativePath = path, formatType = RELATIVE_PATH\<rparr>
      | UNKNOWN \<Rightarrow> Inl (Error (''Unknown or invalid path format: '' @ path)))"

record ValidationResult =
  isValid :: bool
  errorMessage :: "string option"

definition validatePathForTool :: "RepoManager \<Rightarrow> string \<Rightarrow> string \<Rightarrow> ValidationResult" where
  "validatePathForTool rm path toolName =
     (let formatType = getPathFormatType path in
      if formatType \<noteq> ABSOLUTE_PATH then
        (let examplePath =
               (if formatType = REPOSITORY_PREFIXED
                then (let parts = split ''://'' path
                      in ''/'' @ template_nth parts 0 @ ''/'' @ template_nth parts 1)
                else ''/'' @ defaultRepoId rm @ ''/'' @ path)
         in \<lparr>isValid = False,
             errorMessage = Some (''ABSOLUTE PATH REQUIRED: All tools now require absolute paths in the format: /repoId/path/to/file''
                                  @ [CHR 0x0A] @ ''Convert your path to: '' @ examplePath)\<rparr>)
      else
        (let parts = split ''/'' (drop 1 path) in
         if length parts < 2 \<or> hd parts = [] then
           \<lparr>isValid = False,
            errorMessage = Some ''INVALID ABSOLUTE PATH: Path must follow pattern: /repoId/path/to/file''\<rparr>
         else
           (let repoId = hd parts in
            if getRepository rm (Some repoId) = None then
              \<lparr>isValid = False,
               errorMessage = Some (''INVALID REPOSITORY ID: '' @ [CHR 0x27] @ repoId @ [CHR 0x27]
                                    @ '' not found in registered repositories.'')\<rparr>
            else \<lparr>isValid = True, errorMessage = None\<rparr>)))"

definition resolveToAbsolutePath :: "RepoManager \<Rightarrow> string \<Rightarrow> error + string" where
  "resolveToAbsolutePath rm path =
     (case parsePathFormat rm path of
        Inl e \<Rightarrow> Inl e
      | Inr parsed \<Rightarrow>
          (case getRepository rm (Some (repoId parsed)) of
             None \<Rightarrow> Inl (Error (''Repository not found: '' @ repoId parsed))
           | Some repo \<Rightarrow> Inr (rc_path repo @ ''/'' @ relativePath parsed)))"

section \<open>Module manager (moduleManager.ts)\<close>

datatype ModuleType =
  T_api | T_service | T_web | T_library | T_static_site | T_utility | T_docs | T_config
  | T_unknown

text \<open>
  \<open>ModuleInfo\<close>; the fields \<open>id\<close>, \<open>name\<close>, \<open>path\<close>, \<open>type\<close>, \<open>language\<close> and \<open>repoId\<close>
  carry the prefix \<open>m_\<close>. The optional \<open>repoId\<close> is \<open>None\<close> until the module is
  registered.
\<close>

record ModuleInfo =
  m_id :: string
  m_name :: string
  m_path :: string
  m_type :: ModuleType
  m_language :: string
  m_repoId :: "string option"

text \<open>\<open>modulesByRepo\<close>: a \<open>Map\<close> from repository id to a \<open>Map\<close> from module id to module.\<close>

type_synonym ModuleManager = "(string, (string, ModuleInfo) js_map) js_map"

definition registerModule :: "ModuleManager \<Rightarrow> string \<Rightarrow> ModuleInfo \<Rightarrow> ModuleManager" where
  "registerModule mm rid moduleInfo =
     (let mm1 = (if \<not> map_has mm rid then map_set mm rid [] else mm);
          moduleWithRepo = moduleInfo\<lparr>m_repoId := Some rid\<rparr>
      in map_set mm1 rid (map_set (the (map_get mm1 rid)) (m_id moduleInfo) moduleWithRepo))"

definition getModulesForRepo :: "ModuleManager \<Rightarrow> string \<Rightarrow> ModuleInfo list" where
  "getModulesForRepo mm rid =
     (case map_get mm rid of None \<Rightarrow> [] | Some repoModules \<Rightarrow> map_values repoModules)"

definition getModule :: "RepoManager \<Rightarrow> ModuleManager \<Rightarrow> string \<Rightarrow> string option \<Rightarrow> ModuleInfo option" where
  "getModule rm mm moduleId rid =
     (let targetRepoId = (if truthy rid then the rid else defaultRepoId rm) in
      case map_get mm targetRepoId of
        None \<Rightarrow> None
      | Some repoModules \<Rightarrow> map_get repoModules moduleId)"

text \<open>
  The three loops of \<open>getModuleByName\<close>, each returning at its first hit. The first
  loop looks the name up as a key of each repository's map; the other two visit the
  modules of every repository in order and test them.
\<close>

fun find_by_key :: "ModuleManager \<Rightarrow> string \<Rightarrow> ModuleInfo option" where
  "find_by_key [] moduleName = None"
| "find_by_key ((rid, modules) # rest) moduleName =
     (if map_has modules moduleName then map_get modules moduleName
      else find_by_key rest moduleName)"

fun find_module :: "(ModuleInfo \<Rightarrow> bool) \<Rightarrow> (string, ModuleInfo) js_map \<Rightarrow> ModuleInfo option" where
  "find_module P [] = None"
| "find_module P ((k, module) # rest) = (if P module then Some module else find_module P rest)"

fun find_in_repos :: "(ModuleInfo \<Rightarrow> bool) \<Rightarrow> ModuleManager \<Rightarrow> ModuleInfo option" where
  "find_in_repos P [] = None"
| "find_in_repos P ((rid, modules) # rest) =
     (case find_module P modules of
        Some module \<Rightarrow> Some module
      | None \<Rightarrow> find_in_repos P rest)"

definition exact_match :: "string \<Rightarrow> ModuleInfo \<Rightarrow> bool" where
  "exact_match moduleName module = (m_name module = moduleName \<or> m_id module = moduleName)"

definition fuzzy_match :: "platform \<Rightarrow> string \<Rightarrow> ModuleInfo \<Rightarrow> bool" where
  "fuzzy_match pf moduleName module =
     (str_includes (toLowerCase pf (m_name module)) (toLowerCase pf moduleName)
      \<or> str_includes (toLowerCase pf (m_id module)) (toLowerCase pf moduleName))"

definition getModuleByName :: "platform \<Rightarrow> ModuleManager \<Rightarrow> string \<Rightarrow> ModuleInfo option" where
  "getModuleByName pf mm moduleName =
     (case find_by_key mm moduleName of
        Some module \<Rightarrow> Some module
      | None \<Rightarrow>
          (case find_in_repos (exact_match moduleName) mm of
             Some module \<Rightarrow> Some module
           | None \<Rightarrow> find_in_repos (fuzzy_match pf moduleName) mm))"

subsection \<open>Module detection\<close>

text \<open>
  \<open>toTitleCase\<close>: hyphens and underscores become spaces; then every match of
  \<open>/\w\S*/g\<close> (a word character followed by all characters up to the next white space)
  is replaced by its first character in upper case followed by the rest in lower case.
  The matches are found from left to right; what lies between them is kept.
\<close>

function title_scan :: "platform \<Rightarrow> string \<Rightarrow> string" where
  "title_scan pf [] = []"
| "title_scan pf (c # cs) =
     (if is_word_char c then
        toUpperCase pf [c] @ toLowerCase pf (takeWhile (\<lambda>x. \<not> is_space_char x) cs)
        @ title_scan pf (dropWhile (\<lambda>x. \<not> is_space_char x) cs)
      else c # title_scan pf cs)"
  by pat_completeness auto
termination
  by (relation "measure (\<lambda>(pf, s). length s)")
    (auto simp: less_Suc_eq_le length_dropWhile_le)

definition toTitleCase :: "platform \<Rightarrow> string \<Rightarrow> string" where
  "toTitleCase pf str =
     title_scan pf (map (\<lambda>c. if c = CHR ''-'' \<or> c = CHR ''_'' then CHR '' '' else c) str)"

text \<open>The table \<open>langMap\<close> of \<open>detectLanguage\<close>.\<close>

definition langMap :: "(string, string) js_map" where
  "langMap =
     [(''.js'', ''javascript''), (''.jsx'', ''javascript''), (''.ts'', ''typescript''),
      (''.tsx'', ''typescript''), (''.py'', ''python''), (''.go'', ''go''), (''.rs'', ''rust''),
      (''.java'', ''java''), (''.rb'', ''ruby''), (''.php'', ''php''), (''.c'', ''c''),
      (''.cpp'', ''cpp''), (''.cs'', ''csharp''), (''.swift'', ''swift''), (''.html'', ''html''),
      (''.css'', ''css''), (''.scss'', ''scss''), (''.less'', ''less''), (''.md'', ''markdown''),
      (''.json'', ''json''), (''.yml'', ''yaml''), (''.yaml'', ''yaml''), (''.toml'', ''toml''),
      (''.sh'', ''shell''), (''.bash'', ''shell'')]"

text \<open>\<open>counts[key] = (counts[key] || 0) + n\<close> on an object used as a dictionary.\<close>

definition add_count :: "(string, nat) js_map \<Rightarrow> string \<Rightarrow> nat \<Rightarrow> (string, nat) js_map" where
  "add_count counts key n =
     map_set counts key ((case map_get counts key of None \<Rightarrow> 0 | Some k \<Rightarrow> k) + n)"

definition count_extension :: "platform \<Rightarrow> (string, nat) js_map \<Rightarrow> string \<Rightarrow> (string, nat) js_map" where
  "count_extension pf extCounts file =
     (let ext = toLowerCase pf (path_extname pf file) in
      if ext \<noteq> [] then add_count extCounts ext 1 else extCounts)"

definition count_language :: "(string, nat) js_map \<Rightarrow> string \<times> nat \<Rightarrow> (string, nat) js_map" where
  "count_language langCounts entry =
     (let lang = (if truthy (map_get langMap (fst entry)) then the (map_get langMap (fst entry))
                  else ''unknown'')
      in add_count langCounts lang (snd entry))"

definition pick_language :: "nat \<times> string \<Rightarrow> string \<times> nat \<Rightarrow> nat \<times> string" where
  "pick_language best entry = (if snd entry > fst best then (snd entry, fst entry) else best)"

definition detectLanguage :: "platform \<Rightarrow> string \<Rightarrow> string" where
  "detectLanguage pf dirPath =
     (case exec_find pf dirPath of
        None \<Rightarrow> ''unknown''
      | Some stdout \<Rightarrow>
          (let files = filter (\<lambda>l. l \<noteq> []) (split [CHR 0x0A] stdout);
               extCounts = foldl (count_extension pf) [] files;
               langCounts = foldl count_language [] extCounts
           in snd (foldl pick_language (0, ''unknown'') langCounts)))"

text \<open>
  One round of the loop of \<open>detectConventionalModules\<close> over the top-level items:
  \<open>None\<close> is a round that adds no module. A \<open>package.json\<close> that cannot be read or
  parsed falls through to the other manifests.
\<close>

definition js_module_type :: "string \<Rightarrow> package_json \<Rightarrow> ModuleType" where
  "js_module_type item packageJson =
     (if startsWith item ''web-'' \<or> dep_react packageJson then T_web
      else if str_includes item ''server'' \<or> str_includes item ''api''
              \<or> dep_express packageJson \<or> dep_fastify packageJson \<or> dep_koa packageJson
           then T_service
      else if str_includes item ''lib'' \<or> private_is_false packageJson then T_library
      else T_unknown)"

definition python_module_type :: "platform \<Rightarrow> string \<Rightarrow> string \<Rightarrow> ModuleType" where
  "python_module_type pf itemPath item =
     (if startsWith item ''api'' \<or> str_includes item ''api'' then T_api
      else if str_includes item ''service'' \<or> str_includes item ''processor'' then T_service
      else if startsWith item ''web-'' \<or> fs_existsSync pf (path_join pf itemPath ''templates'')
           then T_web
      else T_unknown)"

definition js_module :: "platform \<Rightarrow> string \<Rightarrow> string \<Rightarrow> ModuleInfo option" where
  "js_module pf itemPath item =
     (if fs_existsSync pf (path_join pf itemPath ''package.json'') then
        (case read_package_json pf (path_join pf itemPath ''package.json'') of
           None \<Rightarrow> None
         | Some packageJson \<Rightarrow>
             Some \<lparr>m_id = item,
                   m_name = (if truthy (pkg_name packageJson) then the (pkg_name packageJson)
                             else toTitleCase pf item),
                   m_path = item, m_type = js_module_type item packageJson,
                   m_language = ''typescript'', m_repoId = None\<rparr>)
      else None)"

definition conventional_item :: "platform \<Rightarrow> string \<Rightarrow> string \<Rightarrow> ModuleInfo option" where
  "conventional_item pf repoPath item =
     (let itemPath = path_join pf repoPath item in
      case fs_isDirectory pf itemPath of
        None \<Rightarrow> None
      | Some isDir \<Rightarrow>
          if \<not> isDir \<or> startsWith item ''.'' then None
          else
            (case js_module pf itemPath item of
               Some module \<Rightarrow> Some module
             | None \<Rightarrow>
                 if fs_existsSync pf (path_join pf itemPath ''requirements.txt'')
                    \<or> fs_existsSync pf (path_join pf itemPath ''setup.py'')
                    \<or> fs_existsSync pf (path_join pf itemPath ''pyproject.toml'')
                 then Some \<lparr>m_id = item, m_name = toTitleCase pf item, m_path = item,
                            m_type = python_module_type pf itemPath item,
                            m_language = ''python'', m_repoId = None\<rparr>
                 else if fs_existsSync pf (path_join pf itemPath ''go.mod'')
                 then Some \<lparr>m_id = item, m_name = toTitleCase pf item, m_path = item,
                            m_type = (if str_includes item ''api'' then T_api else T_service),
                            m_language = ''go'', m_repoId = None\<rparr>
                 else if fs_existsSync pf (path_join pf itemPath ''Cargo.toml'')
                 then Some \<lparr>m_id = item, m_name = toTitleCase pf item, m_path = item,
                            m_type = T_service, m_language = ''rust'', m_repoId = None\<rparr>
                 else None))"

fun conventional_loop :: "platform \<Rightarrow> string \<Rightarrow> string list \<Rightarrow> ModuleInfo list" where
  "conventional_loop pf repoPath [] = []"
| "conventional_loop pf repoPath (item # items) =
     (case conventional_item pf repoPath item of
        None \<Rightarrow> conventional_loop pf repoPath items
      | Some module \<Rightarrow> module # conventional_loop pf repoPath items)"

definition detectConventionalModules :: "platform \<Rightarrow> string \<Rightarrow> string \<Rightarrow> ModuleInfo list" where
  "detectConventionalModules pf repoPath rid =
     (case fs_readdir pf repoPath of
        None \<Rightarrow> []
      | Some topLevelItems \<Rightarrow> conventional_loop pf repoPath topLevelItems)"

definition static_site_item :: "platform \<Rightarrow> string \<Rightarrow> string \<Rightarrow> ModuleInfo option" where
  "static_site_item pf repoPath dir =
     (let dirPath = path_join pf repoPath dir in
      if fs_existsSync pf dirPath then
        (case fs_isDirectory pf dirPath of
           None \<Rightarrow> None
         | Some isDir \<Rightarrow>
             if isDir then
               (case fs_readdir pf dirPath of
                  None \<Rightarrow> None
                | Some items \<Rightarrow>
                    (let hasIndexHtml = (''index.html'' \<in> set items);
                         hasMarkdown = list_ex (\<lambda>file. endsWith file ''.md'') items
                     in if hasIndexHtml \<or> hasMarkdown then
                          Some \<lparr>m_id = dir,
                                m_name = (if dir = ''docs'' then ''Documentation''
                                          else toTitleCase pf dir),
                                m_path = dir, m_type = T_static_site,
                                m_language = (if hasMarkdown then ''markdown'' else ''html''),
                                m_repoId = None\<rparr>
                        else None))
             else None)
      else None)"

definition staticSiteDirs :: "string list" where
  "staticSiteDirs = [''docs'', ''website'', ''gh-pages'', ''static'']"

definition detectStaticSiteModules :: "platform \<Rightarrow> string \<Rightarrow> string \<Rightarrow> ModuleInfo list" where
  "detectStaticSiteModules pf repoPath rid =
     List.map_filter (static_site_item pf repoPath) staticSiteDirs"

definition utility_item :: "platform \<Rightarrow> string \<Rightarrow> string \<Rightarrow> ModuleInfo option" where
  "utility_item pf repoPath dir =
     (let dirPath = path_join pf repoPath dir in
      if fs_existsSync pf dirPath then
        (case fs_isDirectory pf dirPath of
           None \<Rightarrow> None
         | Some isDir \<Rightarrow>
             if isDir then
               Some \<lparr>m_id = dir, m_name = toTitleCase pf dir, m_path = dir, m_type = T_utility,
                     m_language = detectLanguage pf dirPath, m_repoId = None\<rparr>
             else None)
      else None)"

definition utilityDirs :: "string list" where
  "utilityDirs = [''scripts'', ''examples'', ''tools'', ''config'', ''utils'']"

definition detectUtilityModules :: "platform \<Rightarrow> string \<Rightarrow> string \<Rightarrow> ModuleInfo list" where
  "detectUtilityModules pf repoPath rid =
     List.map_filter (utility_item pf repoPath) utilityDirs"

text \<open>
  \<open>detectModulesInRepository\<close>: the reset of the working directory, the three passes in
  order, and the catch-all module when they found nothing. Each pass catches what its
  own calls throw, so the outer \<open>catch\<close> block has no branch here.
\<close>

definition detectModulesInRepository ::
  "platform \<Rightarrow> RepoManager \<Rightarrow> string \<Rightarrow> string \<Rightarrow> process \<Rightarrow> ModuleInfo list \<times> process" where
  "detectModulesInRepository pf rm repoPath rid p =
     (let p' = snd (resetWorkingDirectory pf p);
          modules = detectConventionalModules pf repoPath rid
                    @ detectStaticSiteModules pf repoPath rid
                    @ detectUtilityModules pf repoPath rid
      in if length modules = 0 then
           ([\<lparr>m_id = rid,
              m_name = (case getRepository rm (Some rid) of
                          None \<Rightarrow> rid
                        | Some repo \<Rightarrow> if displayName repo \<noteq> [] then displayName repo else rid),
              m_path = [], m_type = T_unknown,
              m_language = detectLanguage pf repoPath, m_repoId = None\<rparr>], p')
         else (modules, p'))"

text \<open>
  \<open>autoDetectAllModules\<close>: every registered repository is scanned in turn and its
  modules are registered; the result is the number of modules found.
\<close>

definition scan_repository ::
  "platform \<Rightarrow> RepoManager \<Rightarrow> nat \<times> ModuleManager \<times> process \<Rightarrow> RepoConfig
   \<Rightarrow> nat \<times> ModuleManager \<times> process" where
  "scan_repository pf rm st repo =
     (case st of (totalModules, mm, p) \<Rightarrow>
        (let (modules, p') = detectModulesInRepository pf rm (rc_path repo) (rc_id repo) p
         in (totalModules + length modules,
             foldl (\<lambda>mm' module. registerModule mm' (rc_id repo) module) mm modules, p')))"

definition autoDetectAllModules ::
  "platform \<Rightarrow> RepoManager \<Rightarrow> ModuleManager \<Rightarrow> process \<Rightarrow> nat \<times> ModuleManager \<times> process" where
  "autoDetectAllModules pf rm mm p = foldl (scan_repository pf rm) (0, mm, p) (getAllRepositories rm)"


section \<open>Notions used in the statements\<close>

text \<open>
  Of the configurations registered in order, the id of the first one whose id is not
  empty; \<open>unknown\<close>, the fallback of the getter, when there is none.
\<close>

definition first_registered_id :: "RepoConfig list \<Rightarrow> string" where
  "first_registered_id configs =
     (case find (\<lambda>c. rc_id c \<noteq> []) configs of None \<Rightarrow> ''unknown'' | Some c \<Rightarrow> rc_id c)"

text \<open>The directory the process is in after a history, started in the directory \<open>c\<close>.\<close>

fun replay :: "string \<Rightarrow> event list \<Rightarrow> string" where
  "replay c [] = c"
| "replay c (Reset_called # es) = replay c es"
| "replay c (Chdir d # es) = replay d es"

text \<open>
  The module registry reached from the empty one by a sequence of \<open>registerModule\<close>
  calls (the only operation that writes \<open>modulesByRepo\<close>), and all its modules in
  iteration order. In such a registry every module is stored under its own id.
\<close>

definition registered :: "(string \<times> ModuleInfo) list \<Rightarrow> ModuleManager" where
  "registered regs = foldl (\<lambda>mm reg. registerModule mm (fst reg) (snd reg)) [] regs"

definition all_modules :: "ModuleManager \<Rightarrow> ModuleInfo list" where
  "all_modules mm = concat (map (\<lambda>entry. map_values (snd entry)) mm)"

definition keyed_by_id :: "ModuleManager \<Rightarrow> bool" where
  "keyed_by_id mm =
     (\<forall>rid modules k m. (rid, modules) \<in> set mm \<longrightarrow> (k, m) \<in> set modules \<longrightarrow> m_id m = k)"

text \<open>What the three detection passes produce together, in order.\<close>

definition detected :: "platform \<Rightarrow> string \<Rightarrow> string \<Rightarrow> ModuleInfo list" where
  "detected pf repoPath rid =
     detectConventionalModules pf repoPath rid @ detectStaticSiteModules pf repoPath rid
     @ detectUtilityModules pf repoPath rid"

text \<open>
  The directory entries of \<open>dir\<close> have non-empty names, as on every file system. A
  registry in which, for every repository, the module ids are distinct and a module with
  the empty path is stored under the id of the repository.
\<close>

definition entry_names_nonempty :: "platform \<Rightarrow> string \<Rightarrow> bool" where
  "entry_names_nonempty pf dir =
     (case fs_readdir pf dir of None \<Rightarrow> True | Some names \<Rightarrow> [] \<notin> set names)"

definition one_root :: "ModuleManager \<Rightarrow> bool" where
  "one_root mm =
     (\<forall>rid modules. (rid, modules) \<in> set mm \<longrightarrow>
        distinct (map fst modules)
        \<and> (\<forall>k m. (k, m) \<in> set modules \<longrightarrow> m_path m = [] \<longrightarrow> k = rid))"

section \<open>A small installation\<close>

text \<open>
  A concrete platform on which the definitions can be run: two repositories under
  \<open>/srv\<close>. \<open>/srv/demo\<close> holds a web front end with a manifest, a \<open>docs\<close> directory and a
  \<open>scripts\<close> directory; \<open>/srv/plain\<close> holds three files and no directory.
\<close>

definition example_dirs :: "(string \<times> string list) list" where
  "example_dirs =
     [(''/'', [''srv'']),
      (''/srv'', [''demo'', ''plain'']),
      (''/srv/demo'', [''web-ui'', ''docs'', ''scripts'', ''README.md'', ''.git'']),
      (''/srv/demo/web-ui'', [''package.json'']),
      (''/srv/demo/docs'', [''index.html'']),
      (''/srv/demo/scripts'', [''build.py'', ''run.py'']),
      (''/srv/demo/.git'', []),
      (''/srv/plain'', [''notes.md'', ''a.ts'', ''b.ts''])]"

definition example_files :: "string list" where
  "example_files =
     [''/srv/demo/README.md'', ''/srv/demo/web-ui/package.json'', ''/srv/demo/docs/index.html'',
      ''/srv/demo/scripts/build.py'', ''/srv/demo/scripts/run.py'',
      ''/srv/plain/notes.md'', ''/srv/plain/a.ts'', ''/srv/plain/b.ts'']"

definition example_extname :: "string \<Rightarrow> string" where
  "example_extname file =
     (let base = rev (takeWhile (\<lambda>c. c \<noteq> CHR ''/'') (rev file))
      in if CHR ''.'' \<in> set (drop 1 base)
         then CHR ''.'' # rev (takeWhile (\<lambda>c. c \<noteq> CHR ''.'') (rev base))
         else [])"

definition example_find :: "string \<Rightarrow> string option" where
  "example_find dirPath =
     (if map_of example_dirs dirPath = None then None
      else Some (concat (map (\<lambda>f. f @ [CHR 0x0A])
                   (filter (\<lambda>f. startsWith f (dirPath @ ''/'')) example_files))))"

text \<open>
  The case mappings of the example platform: its strings hold ASCII characters only, and
  on those the mappings change the letters \<open>A\<close> to \<open>Z\<close> and \<open>a\<close> to \<open>z\<close>.
\<close>

definition lower_char :: "char \<Rightarrow> char" where
  "lower_char c =
     (let n = of_char c :: nat in if 65 \<le> n \<and> n \<le> 90 then char_of (n + 32) else c)"

definition upper_char :: "char \<Rightarrow> char" where
  "upper_char c =
     (let n = of_char c :: nat in if 97 \<le> n \<and> n \<le> 122 then char_of (n - 32) else c)"

definition ascii_toLowerCase :: "string \<Rightarrow> string" where
  "ascii_toLowerCase s = map lower_char s"

definition ascii_toUpperCase :: "string \<Rightarrow> string" where
  "ascii_toUpperCase s = map upper_char s"

definition example_platform :: platform where
  "example_platform =
     \<lparr>path_resolve = (\<lambda>base p. base @ p),
      path_join = (\<lambda>a b. a @ ''/'' @ b),
      path_extname = example_extname,
      fs_existsSync = (\<lambda>p. map_of example_dirs p \<noteq> None \<or> p \<in> set example_files),
      fs_readdir = map_of example_dirs,
      fs_isDirectory = (\<lambda>p. if map_of example_dirs p \<noteq> None then Some True
                             else if p \<in> set example_files then Some False else None),
      read_package_json = (\<lambda>p. if p = ''/srv/demo/web-ui/package.json''
                                then Some \<lparr>dep_react = True, dep_express = False,
                                           dep_fastify = False, dep_koa = False,
                                           private_is_false = False, pkg_name = Some ''web-ui''\<rparr>
                                else None),
      exec_find = example_find,
      chdir_ok = (\<lambda>p. map_of example_dirs p \<noteq> None),
      cwd_ok = (\<lambda>p. True),
      toLowerCase = ascii_toLowerCase,
      toUpperCase = ascii_toUpperCase\<rparr>"

definition demo_repo :: RepoConfig where
  "demo_repo = \<lparr>rc_id = ''demo'', rc_path = ''/srv/demo'', displayName = ''Demo''\<rparr>"

definition plain_repo :: RepoConfig where
  "plain_repo = \<lparr>rc_id = ''plain'', rc_path = ''/srv/plain'', displayName = ''Plain''\<rparr>"

definition example_manager :: RepoManager where
  "example_manager = foldl (addRepository example_platform) empty_manager [demo_repo, plain_repo]"


text \<open>Two repositories whose ids are not path segments: the empty id and an id with a slash.\<close>

definition unnamed_repo :: RepoConfig where
  "unnamed_repo = \<lparr>rc_id = [], rc_path = ''/srv/demo'', displayName = []\<rparr>"

definition nested_repo :: RepoConfig where
  "nested_repo = \<lparr>rc_id = ''a/b'', rc_path = ''/srv/plain'', displayName = ''A/b''\<rparr>"


text \<open>
  Environments for the start-up scan: two repositories (and one variable whose path does
  not exist); the legacy variable; a variable \<open>REPO_PATH_\<close> with nothing after the
  underscore. A platform on which the root directory cannot be entered. A registry of
  two modules whose ids are \<open>api-gateway\<close> and \<open>api\<close>.
\<close>

definition example_env :: environment where
  "example_env =
     [(''HOME'', ''/root''), (''REPO_PATH_DEMO'', ''/srv/demo''),
      (''REPO_PATH_GONE'', ''/srv/gone''), (''REPO_PATH_PLAIN'', ''/srv/plain'')]"

definition legacy_env :: environment where
  "legacy_env = [(''REPO_PATH_DEMO'', ''/srv/demo''), (''SWIFT_CODER_REPO_PATH'', ''/srv/plain'')]"

definition unnamed_env :: environment where
  "unnamed_env = [(''REPO_PATH_'', ''/srv/demo''), (''REPO_PATH_PLAIN'', ''/srv/plain'')]"

definition no_root_platform :: platform where
  "no_root_platform =
     example_platform\<lparr>chdir_ok := (\<lambda>p. p \<noteq> ''/'' \<and> map_of example_dirs p \<noteq> None)\<rparr>"

definition start_process :: process where
  "start_process = \<lparr>cwd = ''/srv/demo'', events = []\<rparr>"

definition gateway_module :: ModuleInfo where
  "gateway_module =
     \<lparr>m_id = ''api-gateway'', m_name = ''Edge Gateway'', m_path = ''api-gateway'',
      m_type = T_service, m_language = ''go'', m_repoId = None\<rparr>"

definition api_module :: ModuleInfo where
  "api_module =
     \<lparr>m_id = ''api'', m_name = ''Core'', m_path = ''api'', m_type = T_api,
      m_language = ''go'', m_repoId = None\<rparr>"

definition example_modules :: "(string \<times> ModuleInfo) list" where
  "example_modules = [(''demo'', gateway_module), (''demo'', api_module)]"

section \<open>Splitting and joining\<close>

lemma split_nonempty [simp]: "split sep s \<noteq> []"
  by (induction sep s rule: split.induct) (auto split: list.splits)

lemma split_slash_append:
  "CHR ''/'' \<notin> set a \<Longrightarrow> split ''/'' (a @ CHR ''/'' # b) = a # split ''/'' b"
  by (induction a) (auto simp: startsWith_def)

lemma join_split_slash: "join ''/'' (split ''/'' s) = s"
proof (induction s)
  case Nil
  show ?case by simp
next
  case (Cons c cs)
  obtain p ps where sp: "split ''/'' cs = p # ps"
    by (cases "split ''/'' cs") auto
  show ?case
  proof (cases "c = CHR ''/''")
    case True
    with Cons sp show ?thesis by (simp add: startsWith_def)
  next
    case False
    from Cons sp have "join ''/'' (p # ps) = cs" by simp
    then have "join ''/'' ((c # p) # ps) = c # cs" by (cases ps) auto
    with False sp show ?thesis by (simp add: startsWith_def)
  qed
qed

lemma two_segments: "\<not> length (a # split sep s) < 2"
  by (cases "split sep s") auto

section \<open>Properties of the path handler\<close>

lemma format_absolute: "getPathFormatType (CHR ''/'' # s) = ABSOLUTE_PATH"
  by (simp add: getPathFormatType_def startsWith_def)

lemma format_not_absolute:
  "\<not> startsWith addr ''/'' \<Longrightarrow> getPathFormatType addr \<noteq> ABSOLUTE_PATH"
  by (simp add: getPathFormatType_def)

lemma parse_absolute:
  assumes "CHR ''/'' \<notin> set rid"
  shows "parsePathFormat rm (''/'' @ rid @ ''/'' @ rel)
         = Inr \<lparr>repoId = rid, relativePath = rel, formatType = ABSOLUTE_PATH\<rparr>"
proof -
  have "split ''/'' (rid @ CHR ''/'' # rel) = rid # split ''/'' rel"
    using assms by (rule split_slash_append)
  then show ?thesis
    using two_segments [of rid "''/''" rel]
    by (simp add: parsePathFormat_def format_absolute join_split_slash)
qed

text \<open>
  Claim C1, as amended. For a repository \<open>r\<close> stored in the registry under its id, where
  the id is not empty and has no slash, and for every relative path \<open>p\<close>, resolving the
  address \<open>/id/p\<close> returns the root path of \<open>r\<close>, a slash, and \<open>p\<close>.
\<close>

theorem resolve_registered_repository:
  assumes "map_get (repositories rm) (rc_id r) = Some r"
    and "rc_id r \<noteq> []"
    and "CHR ''/'' \<notin> set (rc_id r)"
  shows "resolveToAbsolutePath rm (''/'' @ rc_id r @ ''/'' @ p) = Inr (rc_path r @ ''/'' @ p)"
  using assms
  by (simp add: resolveToAbsolutePath_def parse_absolute [simplified] getRepository_def
      truthy_def)

theorem resolve_registered_repository_witness:
  "map_get (repositories example_manager) (rc_id demo_repo) = Some demo_repo
   \<and> rc_id demo_repo \<noteq> []
   \<and> CHR ''/'' \<notin> set (rc_id demo_repo)
   \<and> resolveToAbsolutePath example_manager (''/'' @ rc_id demo_repo @ ''/'' @ ''src/a.ts'')
       = Inr ''/srv/demo/src/a.ts''"
proof -
  have h1: "map_get (repositories example_manager) (rc_id demo_repo) = Some demo_repo"
    by code_simp
  have h2: "rc_id demo_repo \<noteq> []" and h3: "CHR ''/'' \<notin> set (rc_id demo_repo)"
    by (simp_all add: demo_repo_def)
  have "rc_path demo_repo @ ''/'' @ ''src/a.ts'' = ''/srv/demo/src/a.ts''"
    by (simp add: demo_repo_def)
  with resolve_registered_repository [OF h1 h2 h3, of "''src/a.ts''"] h1 h2 h3
  show ?thesis by simp
qed

text \<open>
  Claim C1 as stated fails for a repository registered under the empty id and for one
  registered under an id with a slash: the address built from the id names another
  first segment, and resolution throws.
\<close>

theorem resolve_registered_repository_counterexample:
  "map_get (repositories (addRepository example_platform empty_manager unnamed_repo))
       (rc_id unnamed_repo) = Some unnamed_repo
   \<and> resolveToAbsolutePath (addRepository example_platform empty_manager unnamed_repo)
       (''/'' @ rc_id unnamed_repo @ ''/'' @ ''x'') = Inl (Error ''Repository not found: '')
   \<and> map_get (repositories (addRepository example_platform empty_manager nested_repo))
       (rc_id nested_repo) = Some nested_repo
   \<and> resolveToAbsolutePath (addRepository example_platform empty_manager nested_repo)
       (''/'' @ rc_id nested_repo @ ''/'' @ ''x'') = Inl (Error ''Repository not found: a'')"
  by code_simp

text \<open>
  Claim C2. For every address that does not begin with a slash and every tool name,
  \<open>validatePathForTool\<close> returns a result (the function has no throwing branch) whose
  \<open>isValid\<close> is false and which carries an error message.
\<close>

theorem validate_rejects_non_absolute:
  "\<not> startsWith addr ''/'' \<Longrightarrow>
   \<not> isValid (validatePathForTool rm addr t)
   \<and> errorMessage (validatePathForTool rm addr t) \<noteq> None"
  by (simp add: validatePathForTool_def format_not_absolute Let_def)

theorem validate_rejects_non_absolute_witness:
  "\<not> startsWith ''demo://src/a.ts'' ''/''
   \<and> \<not> isValid (validatePathForTool example_manager ''demo://src/a.ts'' ''read-file'')
   \<and> errorMessage (validatePathForTool example_manager ''demo://src/a.ts'' ''read-file'') \<noteq> None"
proof -
  have h: "\<not> startsWith ''demo://src/a.ts'' ''/''"
    by (simp add: startsWith_def)
  from validate_rejects_non_absolute [OF h, of example_manager "''read-file''"] h
  show ?thesis by simp
qed

text \<open>
  Prefixed addresses with one separator are parsed into the two sides of the separator,
  and an empty side is a format error.
\<close>

lemma split_scheme_none: "\<not> str_includes s ''://'' \<Longrightarrow> split ''://'' s = [s]"
  by (induction s) auto

lemma starts_scheme_straddle:
  assumes "\<not> startsWith (c # cs) ''://''"
  shows "\<not> startsWith (c # cs @ ''://'' @ b) ''://''"
proof (cases cs)
  case Nil
  then show ?thesis by (simp add: startsWith_def)
next
  case (Cons d ds)
  with assms show ?thesis by (cases ds) (auto simp: startsWith_def)
qed

lemma split_scheme_append:
  "\<not> str_includes a ''://'' \<Longrightarrow> split ''://'' (a @ ''://'' @ b) = a # split ''://'' b"
proof (induction a)
  case Nil
  show ?case by (simp add: startsWith_def)
next
  case (Cons c cs)
  then have ns: "\<not> startsWith (c # cs) ''://''" and ni: "\<not> str_includes cs ''://''"
    by simp_all
  from starts_scheme_straddle [OF ns, of b]
  have "\<not> startsWith ((c # cs) @ ''://'' @ b) ''://''" by simp
  moreover from Cons.IH [OF ni] have "split ''://'' (cs @ ''://'' @ b) = cs # split ''://'' b" .
  ultimately show ?case by simp
qed

lemma str_includes_self: "str_includes (sep @ b) sep"
proof (cases "sep @ b")
  case Nil
  then show ?thesis by simp
next
  case (Cons c cs)
  have "startsWith (sep @ b) sep" by (simp add: startsWith_def)
  with Cons show ?thesis by simp
qed

lemma str_includes_append: "str_includes (a @ sep @ b) sep"
  by (induction a) (simp_all add: str_includes_self)

lemma parse_prefixed_single_separator:
  assumes "prefix \<noteq> []" and "rest \<noteq> []" and "\<not> startsWith prefix ''/''"
    and "\<not> str_includes prefix ''://''" and "\<not> str_includes rest ''://''"
  shows "parsePathFormat rm (prefix @ ''://'' @ rest)
         = Inr \<lparr>repoId = prefix, relativePath = rest, formatType = REPOSITORY_PREFIXED\<rparr>"
proof -
  obtain c cs where p: "prefix = c # cs" using assms(1) by (cases prefix) auto
  with assms(3) have "\<not> startsWith (prefix @ ''://'' @ rest) ''/''"
    by (simp add: startsWith_def)
  then have f: "getPathFormatType (prefix @ ''://'' @ rest) = REPOSITORY_PREFIXED"
    using assms(1) str_includes_append [of prefix "''://''" rest]
    by (simp add: getPathFormatType_def)
  have "split ''://'' (prefix @ ''://'' @ rest) = [prefix, rest]"
    using split_scheme_append [OF assms(4), of rest] split_scheme_none [OF assms(5)] by simp
  with f assms(1,2) show ?thesis
    by (simp add: parsePathFormat_def)
qed

lemma parse_prefixed_empty_prefix:
  "parsePathFormat rm (''://'' @ rest)
     = Inl (Error (''Invalid repository prefixed path: '' @ ''://'' @ rest))"
proof -
  have f: "getPathFormatType (''://'' @ rest) = REPOSITORY_PREFIXED"
    by (simp add: getPathFormatType_def startsWith_def)
  obtain q qs where "split ''://'' rest = q # qs"
    by (cases "split ''://'' rest") auto
  then have "split ''://'' (''://'' @ rest) = [] # q # qs"
    by (simp add: startsWith_def)
  with f show ?thesis
    by (simp add: parsePathFormat_def)
qed

lemma parse_prefixed_empty_rest:
  assumes "\<not> startsWith prefix ''/''" and "\<not> str_includes prefix ''://''"
  shows "parsePathFormat rm (prefix @ ''://'')
     = Inl (Error (''Invalid repository prefixed path: '' @ prefix @ ''://''))"
proof -
  have "\<not> startsWith (prefix @ ''://'') ''/''"
    using assms(1) by (cases prefix) (simp_all add: startsWith_def)
  then have f: "getPathFormatType (prefix @ ''://'') = REPOSITORY_PREFIXED"
    using str_includes_append [of prefix "''://''" "[]"]
    by (simp add: getPathFormatType_def)
  have "split ''://'' (prefix @ ''://'') = [prefix, []]"
    using split_scheme_append [OF assms(2), of "[]"] by simp
  with f show ?thesis
    by (simp add: parsePathFormat_def)
qed

text \<open>
  Claim C6. On the prefixed address \<open>demo://a://b\<close> the parser returns the relative path
  \<open>a\<close>: the split is made at every \<open>://\<close> and only the first two pieces are read, so what
  follows the second separator is lost.
\<close>

theorem parse_prefixed_drops_after_second_separator:
  "parsePathFormat rm ''demo://a://b''
     = Inr \<lparr>repoId = ''demo'', relativePath = ''a'', formatType = REPOSITORY_PREFIXED\<rparr>"
  by (simp add: parsePathFormat_def getPathFormatType_def startsWith_def)

text \<open>
  Claim C7. For a repository id that is not empty and has no slash, and any relative
  path, parsing the address \<open>/repoId/relativePath\<close> returns that id and that path.
\<close>

theorem parse_absolute_inverts_reconstruction:
  "rid \<noteq> [] \<Longrightarrow> CHR ''/'' \<notin> set rid \<Longrightarrow>
   parsePathFormat rm (''/'' @ rid @ ''/'' @ rel)
     = Inr \<lparr>repoId = rid, relativePath = rel, formatType = ABSOLUTE_PATH\<rparr>"
  by (rule parse_absolute)

theorem parse_absolute_inverts_reconstruction_witness:
  "''demo'' \<noteq> [] \<and> CHR ''/'' \<notin> set ''demo''
   \<and> parsePathFormat empty_manager (''/'' @ ''demo'' @ ''/'' @ ''src/lib/a.ts'')
       = Inr \<lparr>repoId = ''demo'', relativePath = ''src/lib/a.ts'', formatType = ABSOLUTE_PATH\<rparr>"
proof -
  have h1: "''demo'' \<noteq> []" and h2: "CHR ''/'' \<notin> set ''demo''"
    by simp_all
  from parse_absolute_inverts_reconstruction [OF h1 h2, of empty_manager "''src/lib/a.ts''"]
  show ?thesis by simp
qed

text \<open>
  Claim C9. For an address \<open>/x/rest\<close> whose first segment \<open>x\<close> is not empty, has no slash
  and is not a registered repository id, \<open>validatePathForTool\<close> returns (it has no
  throwing branch) a failure whose message quotes \<open>x\<close>; and whenever it returns
  \<open>isValid\<close> true for any address, the first segment of that address is registered.
\<close>

theorem validate_unknown_repository:
  assumes "x \<noteq> []" and "CHR ''/'' \<notin> set x" and "map_get (repositories rm) x = None"
  shows "validatePathForTool rm (''/'' @ x @ ''/'' @ rest) t
           = \<lparr>isValid = False,
              errorMessage = Some (''INVALID REPOSITORY ID: '' @ [CHR 0x27] @ x @ [CHR 0x27]
                                   @ '' not found in registered repositories.'')\<rparr>
         \<and> (\<forall>addr. isValid (validatePathForTool rm addr t) \<longrightarrow>
               startsWith addr ''/''
               \<and> map_get (repositories rm) (hd (split ''/'' (drop 1 addr))) \<noteq> None)"
proof -
  have "split ''/'' (x @ CHR ''/'' # rest) = x # split ''/'' rest"
    using assms(2) by (rule split_slash_append)
  then have first: "validatePathForTool rm (''/'' @ x @ ''/'' @ rest) t
           = \<lparr>isValid = False,
              errorMessage = Some (''INVALID REPOSITORY ID: '' @ [CHR 0x27] @ x @ [CHR 0x27]
                                   @ '' not found in registered repositories.'')\<rparr>"
    using two_segments [of x "''/''" rest] assms(1,3)
    by (simp add: validatePathForTool_def format_absolute getRepository_def truthy_def)
  have "startsWith addr ''/''
        \<and> map_get (repositories rm) (hd (split ''/'' (drop 1 addr))) \<noteq> None"
    if "isValid (validatePathForTool rm addr t)" for addr
    using that
    by (auto simp: validatePathForTool_def Let_def getRepository_def truthy_def
        getPathFormatType_def split: if_splits)
  with first show ?thesis by blast
qed

theorem validate_unknown_repository_witness:
  "''ghost'' \<noteq> [] \<and> CHR ''/'' \<notin> set ''ghost''
   \<and> map_get (repositories example_manager) ''ghost'' = None
   \<and> validatePathForTool example_manager ''/ghost/src/a.ts'' ''read-file''
       = \<lparr>isValid = False,
          errorMessage = Some (''INVALID REPOSITORY ID: '' @ [CHR 0x27] @ ''ghost'' @ [CHR 0x27]
                               @ '' not found in registered repositories.'')\<rparr>
   \<and> isValid (validatePathForTool example_manager ''/demo/src/a.ts'' ''read-file'')
   \<and> map_get (repositories example_manager) (hd (split ''/'' (drop 1 ''/demo/src/a.ts''))) \<noteq> None"
proof -
  have h1: "''ghost'' \<noteq> []" and h2: "CHR ''/'' \<notin> set ''ghost''"
    by simp_all
  have h3: "map_get (repositories example_manager) ''ghost'' = None"
    by code_simp
  have v: "isValid (validatePathForTool example_manager ''/demo/src/a.ts'' ''read-file'')"
    by code_simp
  note inst = validate_unknown_repository [OF h1 h2 h3, of "''src/a.ts''" "''read-file''"]
  have a: "validatePathForTool example_manager ''/ghost/src/a.ts'' ''read-file''
       = \<lparr>isValid = False,
          errorMessage = Some (''INVALID REPOSITORY ID: '' @ [CHR 0x27] @ ''ghost'' @ [CHR 0x27]
                               @ '' not found in registered repositories.'')\<rparr>"
    using inst [THEN conjunct1] by simp
  have b: "map_get (repositories example_manager) (hd (split ''/'' (drop 1 ''/demo/src/a.ts'')))
             \<noteq> None"
    using inst [THEN conjunct2, rule_format, OF v] by (rule conjunct2)
  from h1 h2 h3 a v b show ?thesis by (intro conjI)
qed

text \<open>
  Claim C10. The empty address has the format \<open>UNKNOWN\<close>; parsing it and resolving it
  throw the format error, whatever the default repository is; validating it gives
  \<open>isValid\<close> false for every tool name.
\<close>

theorem empty_address_is_unknown:
  "getPathFormatType [] = UNKNOWN
   \<and> parsePathFormat rm [] = Inl (Error ''Unknown or invalid path format: '')
   \<and> resolveToAbsolutePath rm [] = Inl (Error ''Unknown or invalid path format: '')
   \<and> \<not> isValid (validatePathForTool rm [] t)"
  by (simp add: getPathFormatType_def parsePathFormat_def resolveToAbsolutePath_def
      validatePathForTool_def)

theorem empty_address_is_unknown_witness:
  "defaultRepoId example_manager = ''demo''
   \<and> parsePathFormat example_manager [] = Inl (Error ''Unknown or invalid path format: '')
   \<and> resolveToAbsolutePath example_manager [] = Inl (Error ''Unknown or invalid path format: '')
   \<and> \<not> isValid (validatePathForTool example_manager [] ''read-file'')"
proof -
  have "defaultRepoId example_manager = ''demo''"
    by code_simp
  with empty_address_is_unknown [of example_manager "''read-file''"]
  show ?thesis by simp
qed


section \<open>Properties of the repository manager\<close>

lemma addRepository_default:
  "default_id (addRepository pf rm config)
     = (if truthy (default_id rm) then default_id rm else Some (rc_id config))"
  by (simp add: addRepository_def Let_def)

lemma defaultRepoId_foldl:
  "defaultRepoId (foldl (addRepository pf) rm configs)
     = (if truthy (default_id rm) then defaultRepoId rm else first_registered_id configs)"
proof (induction configs arbitrary: rm)
  case Nil
  show ?case by (simp add: first_registered_id_def defaultRepoId_def)
next
  case (Cons c cs)
  have step: "defaultRepoId (foldl (addRepository pf) rm (c # cs))
      = (if truthy (default_id (addRepository pf rm c)) then defaultRepoId (addRepository pf rm c)
         else first_registered_id cs)"
    using Cons.IH [of "addRepository pf rm c"] by simp
  show ?case
  proof (cases "truthy (default_id rm)")
    case True
    then show ?thesis
      unfolding step by (simp add: addRepository_default defaultRepoId_def)
  next
    case False
    then show ?thesis
      unfolding step
      by (cases "rc_id c = []")
        (simp_all add: addRepository_default defaultRepoId_def truthy_def first_registered_id_def)
  qed
qed

text \<open>
  The second test of the default in the callback of \<open>loadFromEnvironment\<close> changes
  nothing: the scan is the registration, in order, of the configurations it builds.
\<close>

lemma load_key_registers:
  "load_key pf env rm key
     = (case scan_config pf env key of None \<Rightarrow> rm | Some config \<Rightarrow> addRepository pf rm config)"
  by (auto simp: load_key_def Let_def addRepository_default split: option.splits if_splits)

lemma scan_registers:
  "foldl (load_key pf env) rm keys
     = foldl (addRepository pf) rm (List.map_filter (scan_config pf env) keys)"
proof (induction keys arbitrary: rm)
  case Nil
  show ?case by (simp add: List.map_filter_simps)
next
  case (Cons k ks)
  have "foldl (load_key pf env) rm (k # ks)
      = foldl (addRepository pf) (load_key pf env rm k) (List.map_filter (scan_config pf env) ks)"
    using Cons.IH [of "load_key pf env rm k"] by simp
  also have "\<dots> = foldl (addRepository pf) rm (List.map_filter (scan_config pf env) (k # ks))"
    by (cases "scan_config pf env k")
      (simp_all add: load_key_registers [of pf env rm k] List.map_filter_simps)
  finally show ?case .
qed

lemma empty_manager_no_default: "\<not> truthy (default_id empty_manager)"
  by (simp add: empty_manager_def truthy_def)

text \<open>
  Claim C8, as amended. After any sequence of registrations starting from the empty
  registry, \<open>defaultRepoId\<close> is the id of the first registered repository whose id is
  not empty (\<open>unknown\<close> when there is none), so a later registration never displaces a
  non-empty default. The same holds when the sequence starts with the scan of the
  environment, the repositories it registers coming first; except that when the variable
  \<open>SWIFT_CODER_REPO_PATH\<close> is set to an existing path, the default is \<open>swift-coder\<close>
  after start-up and after any later registrations.
\<close>

theorem default_is_first_registered:
  "defaultRepoId (foldl (addRepository pf) empty_manager configs) = first_registered_id configs
   \<and> (\<not> swift_coder_override pf env \<longrightarrow>
        defaultRepoId (foldl (addRepository pf) (loadFromEnvironment pf env empty_manager) configs)
          = first_registered_id (List.map_filter (scan_config pf env) (map fst env) @ configs))
   \<and> (swift_coder_override pf env \<longrightarrow>
        defaultRepoId (foldl (addRepository pf) (loadFromEnvironment pf env empty_manager) configs)
          = ''swift-coder'')"
proof (intro conjI impI)
  show "defaultRepoId (foldl (addRepository pf) empty_manager configs)
          = first_registered_id configs"
    by (simp add: defaultRepoId_foldl empty_manager_no_default)
next
  assume "\<not> swift_coder_override pf env"
  then have "foldl (addRepository pf) (loadFromEnvironment pf env empty_manager) configs
      = foldl (addRepository pf) empty_manager
          (List.map_filter (scan_config pf env) (map fst env) @ configs)"
    by (simp add: loadFromEnvironment_def scan_registers)
  then show "defaultRepoId
               (foldl (addRepository pf) (loadFromEnvironment pf env empty_manager) configs)
          = first_registered_id (List.map_filter (scan_config pf env) (map fst env) @ configs)"
    by (simp only: defaultRepoId_foldl empty_manager_no_default if_False)
next
  assume "swift_coder_override pf env"
  then have "default_id (loadFromEnvironment pf env empty_manager) = Some ''swift-coder''"
    by (simp add: loadFromEnvironment_def)
  then show "defaultRepoId
               (foldl (addRepository pf) (loadFromEnvironment pf env empty_manager) configs)
          = ''swift-coder''"
    by (simp only: defaultRepoId_foldl) (simp add: truthy_def defaultRepoId_def)
qed

theorem default_is_first_registered_witness:
  "\<not> swift_coder_override example_platform example_env
   \<and> defaultRepoId (foldl (addRepository example_platform)
         (loadFromEnvironment example_platform example_env empty_manager) [unnamed_repo])
       = ''demo''
   \<and> swift_coder_override example_platform legacy_env
   \<and> defaultRepoId (foldl (addRepository example_platform)
         (loadFromEnvironment example_platform legacy_env empty_manager) [plain_repo])
       = ''swift-coder''
   \<and> defaultRepoId (foldl (addRepository example_platform) empty_manager [plain_repo, demo_repo])
       = ''plain''"
proof -
  have h1: "\<not> swift_coder_override example_platform example_env"
    by code_simp
  have h2: "swift_coder_override example_platform legacy_env"
    by code_simp
  have f1: "first_registered_id (List.map_filter (scan_config example_platform example_env)
              (map fst example_env) @ [unnamed_repo]) = ''demo''"
    by code_simp
  have f2: "first_registered_id [plain_repo, demo_repo] = ''plain''"
    by code_simp
  note a = default_is_first_registered [of example_platform "[unnamed_repo]" example_env]
  note b = default_is_first_registered [of example_platform "[plain_repo]" legacy_env]
  note c = default_is_first_registered [of example_platform "[plain_repo, demo_repo]" example_env]
  from a h1 have "defaultRepoId (foldl (addRepository example_platform)
         (loadFromEnvironment example_platform example_env empty_manager) [unnamed_repo])
       = first_registered_id (List.map_filter (scan_config example_platform example_env)
              (map fst example_env) @ [unnamed_repo])"
    by blast
  with f1 have r1: "defaultRepoId (foldl (addRepository example_platform)
         (loadFromEnvironment example_platform example_env empty_manager) [unnamed_repo])
       = ''demo''"
    by (simp only:)
  from b h2 have r2: "defaultRepoId (foldl (addRepository example_platform)
         (loadFromEnvironment example_platform legacy_env empty_manager) [plain_repo])
       = ''swift-coder''"
    by blast
  from c have "defaultRepoId
         (foldl (addRepository example_platform) empty_manager [plain_repo, demo_repo])
       = first_registered_id [plain_repo, demo_repo]"
    by blast
  with f2 have r3: "defaultRepoId
         (foldl (addRepository example_platform) empty_manager [plain_repo, demo_repo])
       = ''plain''"
    by (simp only:)
  from h1 r1 h2 r2 r3 show ?thesis by (intro conjI)
qed

text \<open>
  Claim C8 as stated fails when the first repository is registered under the empty id:
  the default is then \<open>unknown\<close>, and the next registration takes the default. The scan
  of an environment with the variable \<open>REPO_PATH_\<close> registers such a repository first.
\<close>

theorem default_is_first_registered_counterexample:
  "rc_id unnamed_repo = []
   \<and> defaultRepoId (foldl (addRepository example_platform) empty_manager [unnamed_repo])
       = ''unknown''
   \<and> defaultRepoId (foldl (addRepository example_platform) empty_manager
         [unnamed_repo, plain_repo]) = ''plain''
   \<and> map (rc_id \<circ> snd)
         (repositories (loadFromEnvironment example_platform unnamed_env empty_manager))
       = [[], ''plain'']
   \<and> defaultRepoId (loadFromEnvironment example_platform unnamed_env empty_manager) = ''plain''"
  by code_simp

subsection \<open>The working directory\<close>

lemma through_root_snoc:
  "through_root c (es @ [Chdir d])
     = (through_root c es \<and> (d = rootDir \<or> replay c es = rootDir))"
  by (induction c es rule: through_root.induct) auto

lemma reset_events:
  "\<exists>rest. events (snd (resetWorkingDirectory pf p)) = events p @ Reset_called # rest
     \<and> (fst (resetWorkingDirectory pf p) \<longrightarrow>
          replay (cwd p) (Reset_called # rest) = rootDir
          \<and> through_root (cwd p) (Reset_called # rest))"
  by (auto simp: resetWorkingDirectory_def Let_def)

text \<open>
  Claim C5, as amended. In every execution of \<open>setRepositoryAsWorkingDirectory\<close>, for
  any repository id (given or omitted), the call of \<open>resetWorkingDirectory\<close> is the
  first thing that happens, before any change of directory. Whenever that reset
  succeeds (returns \<open>true\<close>), every change of directory of the execution goes to the
  root or starts from the root: the process does not pass from one repository to another
  directly.
\<close>

theorem working_directory_reset_first:
  "\<exists>rest. events (snd (setRepositoryAsWorkingDirectory pf rm rid p))
             = events p @ Reset_called # rest
     \<and> (fst (resetWorkingDirectory pf p) \<longrightarrow> through_root (cwd p) (Reset_called # rest))"
proof -
  obtain rest where r: "events (snd (resetWorkingDirectory pf p)) = events p @ Reset_called # rest"
    and ok: "fst (resetWorkingDirectory pf p) \<longrightarrow>
          replay (cwd p) (Reset_called # rest) = rootDir
          \<and> through_root (cwd p) (Reset_called # rest)"
    using reset_events by blast
  show ?thesis
  proof (cases "getRepository rm rid")
    case None
    with r ok show ?thesis
      by (auto simp: setRepositoryAsWorkingDirectory_def Let_def)
  next
    case (Some repo)
    show ?thesis
    proof (cases "chdir_ok pf (rc_path repo)")
      case False
      with Some r ok show ?thesis
        by (auto simp: setRepositoryAsWorkingDirectory_def Let_def)
    next
      case True
      have ev: "events (snd (setRepositoryAsWorkingDirectory pf rm rid p))
                 = events p @ Reset_called # (rest @ [Chdir (rc_path repo)])"
        using Some True r by (simp add: setRepositoryAsWorkingDirectory_def Let_def)
      have "through_root (cwd p) (Reset_called # (rest @ [Chdir (rc_path repo)]))"
        if "fst (resetWorkingDirectory pf p)"
        using that ok through_root_snoc [of "cwd p" "Reset_called # rest" "rc_path repo"]
        by simp
      with ev show ?thesis by blast
    qed
  qed
qed

theorem working_directory_reset_first_witness:
  "fst (resetWorkingDirectory example_platform start_process)
   \<and> (\<exists>rest. events (snd (setRepositoryAsWorkingDirectory example_platform example_manager
                              (Some ''plain'') start_process))
               = events start_process @ Reset_called # rest
            \<and> through_root (cwd start_process) (Reset_called # rest))"
proof -
  have h: "fst (resetWorkingDirectory example_platform start_process)"
    by code_simp
  with working_directory_reset_first
         [of example_platform example_manager "Some ''plain''" start_process]
  show ?thesis by blast
qed

text \<open>
  Claim C5 as stated fails in an execution where the root directory cannot be entered:
  \<open>resetWorkingDirectory\<close> returns \<open>false\<close>, its result is not read, and the process goes
  from \<open>/srv/demo\<close> straight to \<open>/srv/plain\<close>.
\<close>

theorem working_directory_reset_first_counterexample:
  "setRepositoryAsWorkingDirectory no_root_platform example_manager (Some ''plain'')
       \<lparr>cwd = ''/srv/demo'', events = []\<rparr>
     = (True, \<lparr>cwd = ''/srv/plain'', events = [Reset_called, Chdir ''/srv/plain'']\<rparr>)
   \<and> \<not> through_root ''/srv/demo'' [Reset_called, Chdir ''/srv/plain'']"
  by code_simp


section \<open>Properties of the module manager\<close>

lemma set_map_set: "set (map_set m k v) \<subseteq> insert (k, v) (set m)"
  by (induction m k v rule: map_set.induct) auto

lemma map_get_in: "map_get m k = Some v \<Longrightarrow> (k, v) \<in> set m"
  by (simp add: map_get_def map_of_SomeD)

lemma map_has_iff: "map_has m k \<longleftrightarrow> k \<in> fst ` set m"
  by (simp add: map_has_def map_of_eq_None_iff)

lemma map_has_set: "map_has (map_set m k v) k"
  by (induction m k v rule: map_set.induct) (auto simp: map_has_def)

lemma registerModule_keyed:
  assumes "keyed_by_id mm"
  shows "keyed_by_id (registerModule mm rid mi)"
proof -
  define mm1 where "mm1 = (if \<not> map_has mm rid then map_set mm rid [] else mm)"
  define inner where "inner = the (map_get mm1 rid)"
  have reg: "registerModule mm rid mi = map_set mm1 rid (map_set inner (m_id mi) (mi\<lparr>m_repoId := Some rid\<rparr>))"
    by (simp add: registerModule_def mm1_def inner_def Let_def)
  have k1: "keyed_by_id mm1"
  proof (cases "map_has mm rid")
    case True
    with assms show ?thesis by (simp add: mm1_def)
  next
    case False
    have "m_id m = k" if "(r, modules) \<in> set (map_set mm rid [])" "(k, m) \<in> set modules"
      for r modules k m
    proof -
      from that(1) set_map_set [of mm rid "[]"]
      have "(r, modules) = (rid, []) \<or> (r, modules) \<in> set mm" by blast
      with that(2) assms show ?thesis unfolding keyed_by_id_def by auto
    qed
    with False show ?thesis unfolding mm1_def keyed_by_id_def by auto
  qed
  have "map_has mm1 rid"
    unfolding mm1_def using map_has_set [of mm rid "[]"] by simp
  then have "(rid, inner) \<in> set mm1"
    unfolding inner_def by (auto simp: map_has_def map_get_def dest: map_of_SomeD)
  with k1 have kin: "\<And>k m. (k, m) \<in> set inner \<Longrightarrow> m_id m = k"
    unfolding keyed_by_id_def by blast
  have knew: "\<And>k m. (k, m) \<in> set (map_set inner (m_id mi) (mi\<lparr>m_repoId := Some rid\<rparr>)) \<Longrightarrow> m_id m = k"
    using set_map_set [of inner "m_id mi" "mi\<lparr>m_repoId := Some rid\<rparr>"] kin by fastforce
  show ?thesis
    unfolding reg keyed_by_id_def
  proof (intro allI impI)
    fix r modules k m
    assume a: "(r, modules) \<in> set (map_set mm1 rid (map_set inner (m_id mi) (mi\<lparr>m_repoId := Some rid\<rparr>)))"
      and b: "(k, m) \<in> set modules"
    from a set_map_set [of mm1 rid "map_set inner (m_id mi) (mi\<lparr>m_repoId := Some rid\<rparr>)"]
    have "(r, modules) = (rid, map_set inner (m_id mi) (mi\<lparr>m_repoId := Some rid\<rparr>)) \<or> (r, modules) \<in> set mm1"
      by blast
    then show "m_id m = k"
    proof
      assume "(r, modules) = (rid, map_set inner (m_id mi) (mi\<lparr>m_repoId := Some rid\<rparr>))"
      with b knew show ?thesis by simp
    next
      assume "(r, modules) \<in> set mm1"
      with b k1 show ?thesis unfolding keyed_by_id_def by blast
    qed
  qed
qed

lemma registered_keyed: "keyed_by_id (registered regs)"
proof -
  have "keyed_by_id mm \<Longrightarrow> keyed_by_id (foldl (\<lambda>mm reg. registerModule mm (fst reg) (snd reg)) mm regs)" for mm
    by (induction regs arbitrary: mm) (simp_all add: registerModule_keyed)
  moreover have "keyed_by_id []"
    by (simp add: keyed_by_id_def)
  ultimately show ?thesis
    unfolding registered_def by blast
qed

lemma find_module_Some:
  "find_module P modules = Some m \<Longrightarrow> m \<in> set (map_values modules) \<and> P m"
  by (induction P modules rule: find_module.induct) (auto simp: map_values_def split: if_splits)

lemma find_module_None:
  "find_module P modules = None \<longleftrightarrow> (\<forall>m \<in> set (map_values modules). \<not> P m)"
  by (induction P modules rule: find_module.induct) (auto simp: map_values_def)

lemma find_in_repos_Some:
  "find_in_repos P mm = Some m \<Longrightarrow> m \<in> set (all_modules mm) \<and> P m"
  by (induction P mm rule: find_in_repos.induct)
    (auto simp: all_modules_def split: option.splits dest: find_module_Some)

lemma find_in_repos_None:
  "find_in_repos P mm = None \<longleftrightarrow> (\<forall>m \<in> set (all_modules mm). \<not> P m)"
  by (induction P mm rule: find_in_repos.induct)
    (auto simp: all_modules_def find_module_None split: option.splits dest: find_module_Some)

lemma find_by_key_Some:
  "find_by_key mm n = Some m \<Longrightarrow> \<exists>rid modules. (rid, modules) \<in> set mm \<and> (n, m) \<in> set modules"
  by (induction mm n rule: find_by_key.induct) (auto split: if_splits dest: map_get_in)

lemma find_by_key_None:
  "find_by_key mm n = None \<longleftrightarrow> (\<forall>entry \<in> set mm. \<not> map_has (snd entry) n)"
  by (induction mm n rule: find_by_key.induct) (auto simp: map_has_def map_get_def)

lemma in_all_modules:
  "m \<in> set (all_modules mm) \<longleftrightarrow> (\<exists>rid modules k. (rid, modules) \<in> set mm \<and> (k, m) \<in> set modules)"
  by (force simp: all_modules_def map_values_def)

lemma key_tier_keyed:
  assumes "keyed_by_id mm"
  shows "find_by_key mm n = None \<longleftrightarrow> (\<forall>m \<in> set (all_modules mm). m_id m \<noteq> n)"
proof
  assume none: "find_by_key mm n = None"
  show "\<forall>m \<in> set (all_modules mm). m_id m \<noteq> n"
  proof
    fix m assume "m \<in> set (all_modules mm)"
    then obtain rid modules k where e: "(rid, modules) \<in> set mm" and km: "(k, m) \<in> set modules"
      by (auto simp: in_all_modules)
    from assms e km have "m_id m = k" unfolding keyed_by_id_def by blast
    moreover from none e have "\<not> map_has modules n" by (auto simp: find_by_key_None)
    ultimately show "m_id m \<noteq> n" using km by (force simp: map_has_iff)
  qed
next
  assume all: "\<forall>m \<in> set (all_modules mm). m_id m \<noteq> n"
  show "find_by_key mm n = None"
  proof (rule ccontr)
    assume "find_by_key mm n \<noteq> None"
    then obtain m where "find_by_key mm n = Some m" by auto
    then obtain rid modules where "(rid, modules) \<in> set mm" "(n, m) \<in> set modules"
      using find_by_key_Some by blast
    with assms all show False unfolding keyed_by_id_def by (meson in_all_modules)
  qed
qed

text \<open>
  Claim C4. In every registry built by \<open>registerModule\<close>, for every name,
  \<open>getModuleByName\<close> answers from the first tier that has a match: a module whose id is
  the name, if there is one in any repository; otherwise a module whose name (or id) is
  the name; otherwise a module whose name or id, put in lower case, contains the name put
  in lower case (\<open>toLowerCase\<close> being the case mapping of the platform, whatever it is);
  otherwise nothing. In particular, when modules with the ids \<open>api\<close> and \<open>api-gateway\<close>
  are registered under one repository, the lookup of \<open>api\<close> returns a module whose id is
  \<open>api\<close>.
\<close>

theorem module_lookup_tiers:
  assumes "mm = registered regs"
  shows "((\<exists>m \<in> set (all_modules mm). m_id m = n) \<longrightarrow>
            (\<exists>m \<in> set (all_modules mm). m_id m = n \<and> getModuleByName pf mm n = Some m))
       \<and> ((\<forall>m \<in> set (all_modules mm). m_id m \<noteq> n) \<and> (\<exists>m \<in> set (all_modules mm). exact_match n m) \<longrightarrow>
            (\<exists>m \<in> set (all_modules mm). exact_match n m \<and> getModuleByName pf mm n = Some m))
       \<and> ((\<forall>m \<in> set (all_modules mm). m_id m \<noteq> n \<and> \<not> exact_match n m)
             \<and> (\<exists>m \<in> set (all_modules mm). fuzzy_match pf n m) \<longrightarrow>
            (\<exists>m \<in> set (all_modules mm). fuzzy_match pf n m \<and> getModuleByName pf mm n = Some m))
       \<and> ((\<forall>m \<in> set (all_modules mm). m_id m \<noteq> n \<and> \<not> exact_match n m \<and> \<not> fuzzy_match pf n m) \<longrightarrow>
            getModuleByName pf mm n = None)
       \<and> ((\<exists>modules. map_get mm rid = Some modules \<and> map_has modules ''api''
               \<and> map_has modules ''api-gateway'') \<longrightarrow>
            (\<exists>m. getModuleByName pf mm ''api'' = Some m \<and> m_id m = ''api''))"
proof -
  have keyed: "keyed_by_id mm" using assms registered_keyed by simp
  have A: "\<exists>m \<in> set (all_modules mm). m_id m = k \<and> getModuleByName pf mm k = Some m"
    if "\<exists>m \<in> set (all_modules mm). m_id m = k" for k
  proof -
    from that key_tier_keyed [OF keyed, of k] obtain m where f: "find_by_key mm k = Some m"
      by auto
    then obtain r modules where "(r, modules) \<in> set mm" "(k, m) \<in> set modules"
      using find_by_key_Some by blast
    with keyed have "m \<in> set (all_modules mm)" "m_id m = k"
      unfolding keyed_by_id_def by (auto simp: in_all_modules)
    with f show ?thesis by (auto simp: getModuleByName_def)
  qed
  have B: "\<exists>m \<in> set (all_modules mm). exact_match n m \<and> getModuleByName pf mm n = Some m"
    if "\<forall>m \<in> set (all_modules mm). m_id m \<noteq> n" "\<exists>m \<in> set (all_modules mm). exact_match n m"
  proof -
    from that(1) have k: "find_by_key mm n = None" by (simp add: key_tier_keyed [OF keyed])
    from that(2) obtain m where f: "find_in_repos (exact_match n) mm = Some m"
      using find_in_repos_None [of "exact_match n" mm] by auto
    with k find_in_repos_Some [OF f] show ?thesis by (auto simp: getModuleByName_def)
  qed
  have C: "\<exists>m \<in> set (all_modules mm). fuzzy_match pf n m \<and> getModuleByName pf mm n = Some m"
    if "\<forall>m \<in> set (all_modules mm). m_id m \<noteq> n \<and> \<not> exact_match n m"
       "\<exists>m \<in> set (all_modules mm). fuzzy_match pf n m"
  proof -
    from that(1) have k: "find_by_key mm n = None" by (simp add: key_tier_keyed [OF keyed])
    from that(1) have e: "find_in_repos (exact_match n) mm = None" by (simp add: find_in_repos_None)
    from that(2) obtain m where f: "find_in_repos (fuzzy_match pf n) mm = Some m"
      using find_in_repos_None [of "fuzzy_match pf n" mm] by auto
    with k e find_in_repos_Some [OF f] show ?thesis by (auto simp: getModuleByName_def)
  qed
  have D: "getModuleByName pf mm n = None"
    if "\<forall>m \<in> set (all_modules mm). m_id m \<noteq> n \<and> \<not> exact_match n m \<and> \<not> fuzzy_match pf n m"
  proof -
    from that have "find_by_key mm n = None" by (simp add: key_tier_keyed [OF keyed])
    moreover from that have "find_in_repos (exact_match n) mm = None" by (simp add: find_in_repos_None)
    moreover from that have "find_in_repos (fuzzy_match pf n) mm = None" by (simp add: find_in_repos_None)
    ultimately show ?thesis by (simp add: getModuleByName_def)
  qed
  have E: "\<exists>m. getModuleByName pf mm ''api'' = Some m \<and> m_id m = ''api''"
    if "\<exists>modules. map_get mm rid = Some modules \<and> map_has modules ''api'' \<and> map_has modules ''api-gateway''"
  proof -
    from that obtain modules where g: "map_get mm rid = Some modules" and h: "map_has modules ''api''"
      by blast
    from h obtain m where "(''api'', m) \<in> set modules" by (auto simp: map_has_iff)
    with g keyed have "m \<in> set (all_modules mm)" "m_id m = ''api''"
      unfolding keyed_by_id_def by (auto simp: in_all_modules dest: map_get_in)
    with A [of "''api''"] show ?thesis by blast
  qed
  from A [of n] B C D E show ?thesis by blast
qed


theorem module_lookup_tiers_witness:
  "(\<exists>modules. map_get (registered example_modules) ''demo'' = Some modules
       \<and> map_has modules ''api'' \<and> map_has modules ''api-gateway'')
   \<and> (\<exists>m. getModuleByName example_platform (registered example_modules) ''api'' = Some m \<and> m_id m = ''api'')
   \<and> (\<exists>m \<in> set (all_modules (registered example_modules)).
         exact_match ''Core'' m \<and> getModuleByName example_platform (registered example_modules) ''Core'' = Some m)
   \<and> (\<exists>m \<in> set (all_modules (registered example_modules)).
         fuzzy_match example_platform ''GATE'' m \<and> getModuleByName example_platform (registered example_modules) ''GATE'' = Some m)
   \<and> getModuleByName example_platform (registered example_modules) ''zzz'' = None"
proof -
  have g: "map_get (registered example_modules) ''demo''
             = Some (snd (hd (registered example_modules)))"
    and h1: "map_has (snd (hd (registered example_modules))) ''api''"
    and h2: "map_has (snd (hd (registered example_modules))) ''api-gateway''"
    by code_simp+
  then have e: "\<exists>modules. map_get (registered example_modules) ''demo'' = Some modules
       \<and> map_has modules ''api'' \<and> map_has modules ''api-gateway''"
    by blast
  have b: "(\<forall>m \<in> set (all_modules (registered example_modules)). m_id m \<noteq> ''Core'')
           \<and> (\<exists>m \<in> set (all_modules (registered example_modules)). exact_match ''Core'' m)"
    by code_simp
  have c: "(\<forall>m \<in> set (all_modules (registered example_modules)).
              m_id m \<noteq> ''GATE'' \<and> \<not> exact_match ''GATE'' m)
           \<and> (\<exists>m \<in> set (all_modules (registered example_modules)). fuzzy_match example_platform ''GATE'' m)"
    by code_simp
  have d: "\<forall>m \<in> set (all_modules (registered example_modules)).
              m_id m \<noteq> ''zzz'' \<and> \<not> exact_match ''zzz'' m \<and> \<not> fuzzy_match example_platform ''zzz'' m"
    by code_simp
  from module_lookup_tiers
         [OF refl, where regs = example_modules and n = "''api''" and rid = "''demo''"
            and pf = example_platform] e
  have r1: "\<exists>m. getModuleByName example_platform (registered example_modules) ''api'' = Some m \<and> m_id m = ''api''"
    by blast
  from module_lookup_tiers
         [OF refl, where regs = example_modules and n = "''Core''" and rid = "''demo''"
            and pf = example_platform] b
  have r2: "\<exists>m \<in> set (all_modules (registered example_modules)).
         exact_match ''Core'' m \<and> getModuleByName example_platform (registered example_modules) ''Core'' = Some m"
    by blast
  from module_lookup_tiers
         [OF refl, where regs = example_modules and n = "''GATE''" and rid = "''demo''"
            and pf = example_platform] c
  have r3: "\<exists>m \<in> set (all_modules (registered example_modules)).
         fuzzy_match example_platform ''GATE'' m \<and> getModuleByName example_platform (registered example_modules) ''GATE'' = Some m"
    by blast
  from module_lookup_tiers
         [OF refl, where regs = example_modules and n = "''zzz''" and rid = "''demo''"
            and pf = example_platform] d
  have r4: "getModuleByName example_platform (registered example_modules) ''zzz'' = None"
    by blast
  from e r1 r2 r3 r4 show ?thesis by (intro conjI)
qed

subsection \<open>Detection\<close>

lemma conventional_item_path:
  "conventional_item pf repoPath item = Some m \<Longrightarrow> m_path m = item"
  by (auto simp: conventional_item_def js_module_def Let_def split: option.splits if_splits)

lemma conventional_loop_paths:
  "m \<in> set (conventional_loop pf repoPath items) \<Longrightarrow> m_path m \<in> set items"
  by (induction items) (auto split: option.splits dest: conventional_item_path)

lemma static_site_item_path:
  "static_site_item pf repoPath dir = Some m \<Longrightarrow> m_path m = dir"
  by (auto simp: static_site_item_def Let_def split: option.splits if_splits)

lemma utility_item_path:
  "utility_item pf repoPath dir = Some m \<Longrightarrow> m_path m = dir"
  by (auto simp: utility_item_def Let_def split: option.splits if_splits)

lemma set_map_filter: "set (List.map_filter f xs) = {y. \<exists>x \<in> set xs. f x = Some y}"
  by (induction xs) (auto simp: List.map_filter_simps split: option.splits)

lemma static_paths:
  "m \<in> set (detectStaticSiteModules pf repoPath rid) \<Longrightarrow> m_path m \<in> set staticSiteDirs"
  by (auto simp: detectStaticSiteModules_def set_map_filter dest: static_site_item_path)

lemma utility_paths:
  "m \<in> set (detectUtilityModules pf repoPath rid) \<Longrightarrow> m_path m \<in> set utilityDirs"
  by (auto simp: detectUtilityModules_def set_map_filter dest: utility_item_path)

lemma detected_paths:
  assumes "entry_names_nonempty pf repoPath"
    and "m \<in> set (detected pf repoPath rid)"
  shows "m_path m \<noteq> []"
proof -
  from assms(2) consider
      "m \<in> set (detectConventionalModules pf repoPath rid)"
    | "m \<in> set (detectStaticSiteModules pf repoPath rid)"
    | "m \<in> set (detectUtilityModules pf repoPath rid)"
    by (auto simp: detected_def)
  then show ?thesis
  proof cases
    case 1
    then obtain names where "fs_readdir pf repoPath = Some names"
      and "m \<in> set (conventional_loop pf repoPath names)"
      by (cases "fs_readdir pf repoPath") (auto simp: detectConventionalModules_def)
    with assms(1) conventional_loop_paths [of m pf repoPath names] show ?thesis
      by (auto simp: entry_names_nonempty_def)
  next
    case 2
    from static_paths [OF 2] show ?thesis by (auto simp: staticSiteDirs_def)
  next
    case 3
    from utility_paths [OF 3] show ?thesis by (auto simp: utilityDirs_def)
  qed
qed

lemma detect_result:
  "fst (detectModulesInRepository pf rm repoPath rid p)
     = (if detected pf repoPath rid = []
        then [\<lparr>m_id = rid,
               m_name = (case getRepository rm (Some rid) of
                           None \<Rightarrow> rid
                         | Some repo \<Rightarrow> if displayName repo \<noteq> [] then displayName repo else rid),
               m_path = [], m_type = T_unknown,
               m_language = detectLanguage pf repoPath, m_repoId = None\<rparr>]
        else detected pf repoPath rid)"
  by (simp add: detectModulesInRepository_def detected_def Let_def)

text \<open>
  Claim C3. For every scan of a repository (on a file system whose directory entries
  have non-empty names), the list returned by \<open>detectModulesInRepository\<close> has a module
  with the empty path if and only if the three passes together produced no module; in
  that case the list is exactly one module, with the empty path, the type \<open>unknown\<close> and
  the language that \<open>detectLanguage\<close> finds for the repository root; so the list never
  has more than one module with the empty path.
\<close>

theorem catch_all_only_when_nothing_detected:
  assumes "entry_names_nonempty pf repoPath"
    and "modules = fst (detectModulesInRepository pf rm repoPath rid p)"
  shows "((\<exists>m \<in> set modules. m_path m = []) \<longleftrightarrow> detected pf repoPath rid = [])
       \<and> (detected pf repoPath rid = [] \<longrightarrow>
            (\<exists>m. modules = [m] \<and> m_path m = [] \<and> m_type m = T_unknown
                 \<and> m_language m = detectLanguage pf repoPath))
       \<and> length (filter (\<lambda>m. m_path m = []) modules) \<le> 1"
proof (cases "detected pf repoPath rid = []")
  case True
  with assms(2) obtain m where "modules = [m]" "m_path m = []" "m_type m = T_unknown"
    "m_language m = detectLanguage pf repoPath"
    by (simp add: detect_result)
  with True show ?thesis by simp
next
  case False
  with assms(2) have m: "modules = detected pf repoPath rid"
    by (simp add: detect_result)
  have "\<forall>m \<in> set modules. m_path m \<noteq> []"
    using detected_paths [OF assms(1)] m by blast
  then have "filter (\<lambda>m. m_path m = []) modules = []"
    by (simp add: filter_empty_conv)
  with False \<open>\<forall>m \<in> set modules. m_path m \<noteq> []\<close> show ?thesis by auto
qed


theorem catch_all_only_when_nothing_detected_witness:
  "entry_names_nonempty example_platform ''/srv/plain''
   \<and> detected example_platform ''/srv/plain'' ''plain'' = []
   \<and> (\<exists>m. fst (detectModulesInRepository example_platform example_manager ''/srv/plain''
                  ''plain'' start_process) = [m]
          \<and> m_path m = [] \<and> m_type m = T_unknown
          \<and> m_language m = detectLanguage example_platform ''/srv/plain'')
   \<and> entry_names_nonempty example_platform ''/srv/demo''
   \<and> detected example_platform ''/srv/demo'' ''demo'' \<noteq> []
   \<and> \<not> (\<exists>m \<in> set (fst (detectModulesInRepository example_platform example_manager
                          ''/srv/demo'' ''demo'' start_process)). m_path m = [])"
proof -
  have h1: "entry_names_nonempty example_platform ''/srv/plain''"
    and h2: "entry_names_nonempty example_platform ''/srv/demo''"
    by code_simp+
  have d1: "detected example_platform ''/srv/plain'' ''plain'' = []"
    by code_simp
  have d2: "detected example_platform ''/srv/demo'' ''demo'' \<noteq> []"
    by code_simp
  from catch_all_only_when_nothing_detected
         [OF h1 refl, of example_manager "''plain''" start_process] d1
  have r1: "\<exists>m. fst (detectModulesInRepository example_platform example_manager ''/srv/plain''
                  ''plain'' start_process) = [m]
          \<and> m_path m = [] \<and> m_type m = T_unknown
          \<and> m_language m = detectLanguage example_platform ''/srv/plain''"
    by blast
  from catch_all_only_when_nothing_detected
         [OF h2 refl, of example_manager "''demo''" start_process] d2
  have r2: "\<not> (\<exists>m \<in> set (fst (detectModulesInRepository example_platform example_manager
                          ''/srv/demo'' ''demo'' start_process)). m_path m = [])"
    by blast
  from h1 d1 r1 h2 d2 r2 show ?thesis by (intro conjI)
qed


text \<open>
  The same in the registry: registering the results of scans keeps, for every repository,
  at most one module with the empty path, since the catch-all module carries the id of
  the repository and modules are stored by id.
\<close>

lemma keys_map_set: "fst ` set (map_set m k v) = insert k (fst ` set m)"
  by (induction m k v rule: map_set.induct) auto

lemma distinct_map_set: "distinct (map fst m) \<Longrightarrow> distinct (map fst (map_set m k v))"
  by (induction m k v rule: map_set.induct) (auto simp: keys_map_set)

lemma registerModule_one_root:
  assumes "one_root mm" and "m_path mi = [] \<longrightarrow> m_id mi = rid"
  shows "one_root (registerModule mm rid mi)"
proof -
  define mm1 where "mm1 = (if \<not> map_has mm rid then map_set mm rid [] else mm)"
  define inner where "inner = the (map_get mm1 rid)"
  define inner' where "inner' = map_set inner (m_id mi) (mi\<lparr>m_repoId := Some rid\<rparr>)"
  have reg: "registerModule mm rid mi = map_set mm1 rid inner'"
    by (simp add: registerModule_def mm1_def inner_def inner'_def Let_def)
  have good1: "distinct (map fst modules) \<and> (\<forall>k m. (k, m) \<in> set modules \<longrightarrow> m_path m = [] \<longrightarrow> k = r)"
    if "(r, modules) \<in> set mm1" for r modules
  proof -
    from that set_map_set [of mm rid "[]"]
    have "(r, modules) = (rid, []) \<or> (r, modules) \<in> set mm"
      unfolding mm1_def by (auto split: if_splits)
    with assms(1) show ?thesis unfolding one_root_def by auto
  qed
  have "map_has mm1 rid"
    unfolding mm1_def using map_has_set [of mm rid "[]"] by simp
  then have "(rid, inner) \<in> set mm1"
    unfolding inner_def by (auto simp: map_has_def map_get_def dest: map_of_SomeD)
  from good1 [OF this] have din: "distinct (map fst inner)"
    and pin: "\<And>k m. (k, m) \<in> set inner \<Longrightarrow> m_path m = [] \<Longrightarrow> k = rid"
    by blast+
  have dnew: "distinct (map fst inner')"
    unfolding inner'_def using din by (rule distinct_map_set)
  have pnew: "k = rid" if "(k, m) \<in> set inner'" "m_path m = []" for k m
  proof -
    from that(1) set_map_set [of inner "m_id mi" "mi\<lparr>m_repoId := Some rid\<rparr>"]
    have "(k, m) = (m_id mi, mi\<lparr>m_repoId := Some rid\<rparr>) \<or> (k, m) \<in> set inner"
      unfolding inner'_def by blast
    with that(2) assms(2) pin show ?thesis by auto
  qed
  show ?thesis
    unfolding reg one_root_def
  proof (intro allI impI)
    fix r modules
    assume "(r, modules) \<in> set (map_set mm1 rid inner')"
    with set_map_set [of mm1 rid inner']
    have "(r, modules) = (rid, inner') \<or> (r, modules) \<in> set mm1" by blast
    then show "distinct (map fst modules)
        \<and> (\<forall>k m. (k, m) \<in> set modules \<longrightarrow> m_path m = [] \<longrightarrow> k = r)"
      using dnew pnew good1 by blast
  qed
qed

lemma detect_root_id:
  assumes "entry_names_nonempty pf repoPath"
    and "m \<in> set (fst (detectModulesInRepository pf rm repoPath rid p))"
    and "m_path m = []"
  shows "m_id m = rid"
proof -
  show ?thesis
  proof (cases "detected pf repoPath rid = []")
    case True
    with assms(2) show ?thesis by (simp add: detect_result)
  next
    case False
    with assms(2) have "m \<in> set (detected pf repoPath rid)" by (simp add: detect_result)
    with detected_paths [OF assms(1)] assms(3) show ?thesis by blast
  qed
qed

lemma register_all_one_root:
  "one_root mm \<Longrightarrow> \<forall>m \<in> set modules. m_path m = [] \<longrightarrow> m_id m = rid \<Longrightarrow>
   one_root (foldl (\<lambda>mm' module. registerModule mm' rid module) mm modules)"
  by (induction modules arbitrary: mm) (simp_all add: registerModule_one_root)

lemma scan_repository_one_root:
  assumes "entry_names_nonempty pf (rc_path repo)" and "one_root (fst (snd st))"
  shows "one_root (fst (snd (scan_repository pf rm st repo)))"
proof -
  obtain n mm p where st: "st = (n, mm, p)" by (cases st) auto
  obtain modules p' where d: "detectModulesInRepository pf rm (rc_path repo) (rc_id repo) p = (modules, p')"
    by (cases "detectModulesInRepository pf rm (rc_path repo) (rc_id repo) p") auto
  have "\<forall>m \<in> set modules. m_path m = [] \<longrightarrow> m_id m = rc_id repo"
    using detect_root_id [OF assms(1), of _ rm "rc_id repo" p] d by simp
  with assms(2) st have "one_root (foldl (\<lambda>mm' module. registerModule mm' (rc_id repo) module) mm modules)"
    by (simp add: register_all_one_root)
  with st d show ?thesis by (simp add: scan_repository_def)
qed

lemma autoDetect_one_root:
  assumes "\<forall>repo \<in> set (getAllRepositories rm). entry_names_nonempty pf (rc_path repo)"
    and "one_root mm"
  shows "one_root (fst (snd (autoDetectAllModules pf rm mm p)))"
proof -
  have "one_root (fst (snd (foldl (scan_repository pf rm) st repos)))"
    if "\<forall>repo \<in> set repos. entry_names_nonempty pf (rc_path repo)" "one_root (fst (snd st))"
    for st repos
    using that by (induction repos arbitrary: st) (simp_all add: scan_repository_one_root)
  from this [OF assms(1), of "(0, mm, p)"] assms(2) show ?thesis
    by (simp add: autoDetectAllModules_def)
qed

lemma one_root_filter:
  "distinct (map fst modules) \<Longrightarrow>
   \<forall>k m. (k, m) \<in> set modules \<longrightarrow> P m \<longrightarrow> k = rid \<Longrightarrow>
   length (filter P (map snd modules)) \<le> 1"
proof (induction modules)
  case Nil
  show ?case by simp
next
  case (Cons e es)
  obtain k m where e: "e = (k, m)" by (cases e) auto
  show ?case
  proof (cases "P m")
    case False
    with Cons e show ?thesis by auto
  next
    case True
    with Cons.prems e have "k = rid" by auto
    have "\<not> P m'" if "(k', m') \<in> set es" for k' m'
    proof
      assume "P m'"
      with that Cons.prems(2) have "k' = rid" by auto
      with that \<open>k = rid\<close> Cons.prems(1) e show False by force
    qed
    then have "filter P (map snd es) = []" by (auto simp: filter_empty_conv)
    with e True show ?thesis by simp
  qed
qed

lemma one_root_modules:
  assumes "one_root mm"
  shows "length (filter (\<lambda>m. m_path m = []) (getModulesForRepo mm rid)) \<le> 1"
proof (cases "map_get mm rid")
  case None
  then show ?thesis by (simp add: getModulesForRepo_def)
next
  case (Some modules)
  then have "(rid, modules) \<in> set mm" by (rule map_get_in)
  with assms have "distinct (map fst modules)"
    and "\<forall>k m. (k, m) \<in> set modules \<longrightarrow> m_path m = [] \<longrightarrow> k = rid"
    unfolding one_root_def by blast+
  from one_root_filter [OF this] Some show ?thesis
    by (simp add: getModulesForRepo_def map_values_def)
qed


lemma one_root_empty: "one_root []"
  by (simp add: one_root_def)

end
